theory Spec2Isabelle
  imports Main
begin

section \<open>JavaScript values and objects\<close>

text \<open>
  The class \<open>Config\<close> (src/unnamed/part_000) is written in JavaScript with Flow types.
  Plugin modules, plugin objects and the entries of the plugin cache have the Flow type
  \<open>any\<close>, and the cache test \<open>if (cached)\<close> is a truthiness test, so the values of the
  language are modelled: the primitives, and objects with an identity (the reference) and
  their own properties. Numbers are restricted to the integers.
\<close>

datatype propkey = KString string | KSymbol string

datatype jsval =
    JUndefined
  | JNull
  | JBool bool
  | JNum int
  | JStr string
  | JObj nat "(propkey \<times> jsval) list"

text \<open>ToBoolean: \<open>undefined\<close>, \<open>null\<close>, \<open>false\<close>, \<open>0\<close> and \<open>""\<close> are falsy, every object is truthy.\<close>

fun truthy :: "jsval \<Rightarrow> bool" where
  "truthy JUndefined = False"
| "truthy JNull = False"
| "truthy (JBool b) = b"
| "truthy (JNum n) = (n \<noteq> 0)"
| "truthy (JStr s) = (s \<noteq> [])"
| "truthy (JObj r ps) = True"

datatype error = Error string | TypeError string

text \<open>
  Property read \<open>v[k]\<close>: a TypeError on \<open>undefined\<close> and \<open>null\<close>, the property's value on an
  object that has it, and \<open>undefined\<close> otherwise (the keys read by \<open>loadPlugin\<close>, \<open>default\<close>
  and the symbol \<open>CONFIG\<close>, are not properties of the built-in prototypes).
\<close>

fun getProp :: "jsval \<Rightarrow> propkey \<Rightarrow> error + jsval" where
  "getProp JUndefined k = Inl (TypeError ''Cannot read property of undefined'')"
| "getProp JNull k = Inl (TypeError ''Cannot read property of null'')"
| "getProp (JObj r ps) k = Inr (case map_of ps k of None \<Rightarrow> JUndefined | Some v \<Rightarrow> v)"
| "getProp v k = Inr JUndefined"

text \<open>
  A plain object with string keys, as the glob maps \<open>{[Glob]: T}\<close> are: its own properties
  in the order of their creation (for an object literal or parsed JSON, the order in which
  the keys are written). Keys of an object are unique.

  \<open>for (let pattern in globMap)\<close> does not visit the keys in that order in general: the
  keys that are array indices (canonical decimal numerals below \<open>2^32 - 1\<close>) come first, in
  ascending numeric order, and the other string keys follow in creation order
  (ECMAScript, OrdinaryOwnPropertyKeys and EnumerateObjectProperties). \<open>forIn\<close> lists
  the properties as the loop visits them, each key with the value \<open>globMap[pattern]\<close>.
\<close>

type_synonym 'v jsobject = "(string \<times> 'v) list"

definition isDigit :: "char \<Rightarrow> bool" where
  "isDigit c = (c \<in> set ''0123456789'')"

definition decimal :: "string \<Rightarrow> int" where
  "decimal s = foldl (\<lambda>n c. 10 * n + (of_char c - 48)) 0 s"

definition isArrayIndex :: "string \<Rightarrow> bool" where
  "isArrayIndex s =
     (s \<noteq> [] \<and> list_all isDigit s \<and> (s = ''0'' \<or> hd s \<noteq> CHR ''0'') \<and> decimal s < 4294967295)"

definition forIn :: "'v jsobject \<Rightarrow> (string \<times> 'v) list" where
  "forIn obj =
     sort_key (\<lambda>kv. decimal (fst kv)) (filter (\<lambda>kv. isArrayIndex (fst kv)) obj)
     @ filter (\<lambda>kv. \<not> isArrayIndex (fst kv)) obj"

section \<open>The collaborators of the class\<close>

text \<open>
  The package metadata (package.json) that \<open>localRequire.resolve\<close> returns beside the
  resolved file: \<open>loadPlugin\<close> reads \<open>pkg.engines\<close> and \<open>pkg.engines.parcel\<close>, both optional,
  the second a version range.
\<close>

record engines_field =
  parcel :: "string option"

record package_json =
  engines :: "engines_field option"

text \<open>
  What the module imports and does not define: \<open>isMatch\<close> of micromatch, \<open>basename\<close> of
  path, \<open>localRequire.resolve\<close> (it rejects when the module is not found), \<open>semver.satisfies\<close>,
  Node's \<open>require\<close> (it throws when the module's evaluation throws) and the version of the
  running program, \<open>PARCEL_VERSION\<close>, read from ../package.json. They are parameters of
  the model.
\<close>

record host =
  isMatch :: "string \<Rightarrow> string \<Rightarrow> bool"
  basename :: "string \<Rightarrow> string"
  localRequire_resolve :: "string \<Rightarrow> string \<Rightarrow> error + (string \<times> package_json)"
  semver_satisfies :: "string \<Rightarrow> string \<Rightarrow> bool"
  require :: "string \<Rightarrow> error + jsval"
  PARCEL_VERSION :: string

text \<open>
  Modelled from the spec: the export key \<open>CONFIG\<close> is declared in @parcel/plugin, which is
  not under src/; the spec calls it a well-known exported symbol on the loaded module.
\<close>

definition CONFIG :: propkey where
  "CONFIG = KSymbol ''parcel-plugin-config''"

text \<open>
  Modelled from the spec: \<open>EnvironmentContext\<close> is declared in @parcel/types, which is not
  under src/; the spec calls it a tag describing the target runtime (browser, server, ...).
\<close>

datatype EnvironmentContext = Browser | WebWorker | ServiceWorker | Node | Electron

section \<open>The class Config\<close>

type_synonym PackageName = string
type_synonym Pipeline = "PackageName list"
type_synonym 'v GlobMap = "'v jsobject"

text \<open>The argument of the constructor: every field may be absent.\<close>

record ParcelConfig =
  cfg_resolvers :: "Pipeline option"
  cfg_transforms :: "Pipeline GlobMap option"
  cfg_runtimes :: "(EnvironmentContext \<rightharpoonup> Pipeline) option"
  cfg_bundler :: "PackageName option"
  cfg_namers :: "Pipeline option"
  cfg_packagers :: "PackageName GlobMap option"
  cfg_optimizers :: "Pipeline GlobMap option"
  cfg_reporters :: "Pipeline option"

text \<open>
  What the methods do to the world outside the instance, in the order they do it: the
  calls of \<open>localRequire.resolve\<close>, \<open>logger.warn\<close>, \<open>semver.satisfies\<close> and \<open>require\<close>.
\<close>

datatype effect =
    ResolveCall PackageName string
  | WarnCall string
  | SatisfiesCall string string
  | RequireCall string

text \<open>
  The fields of an instance. \<open>effects\<close> is not a field of the class: it records the
  calls the instance has made so far.
\<close>

record Config =
  configPath :: string
  resolvers :: Pipeline
  transforms :: "Pipeline GlobMap"
  bundler :: PackageName
  namers :: Pipeline
  runtimes :: "EnvironmentContext \<rightharpoonup> Pipeline"
  packagers :: "PackageName GlobMap"
  optimizers :: "Pipeline GlobMap"
  reporters :: Pipeline
  pluginCache :: "PackageName \<rightharpoonup> jsval"
  effects :: "effect list"

text \<open>\<open>x || d\<close> on an optional field: the default when the field is absent.\<close>

definition orElse :: "'a option \<Rightarrow> 'a \<Rightarrow> 'a" where
  "orElse x d = (case x of None \<Rightarrow> d | Some v \<Rightarrow> v)"

definition newConfig :: "ParcelConfig \<Rightarrow> string \<Rightarrow> Config" where
  "newConfig config filePath =
     \<lparr> configPath = filePath,
       resolvers = orElse (cfg_resolvers config) [],
       transforms = orElse (cfg_transforms config) [],
       bundler = orElse (cfg_bundler config) [],
       namers = orElse (cfg_namers config) [],
       runtimes = orElse (cfg_runtimes config) Map.empty,
       packagers = orElse (cfg_packagers config) [],
       optimizers = orElse (cfg_optimizers config) [],
       reporters = orElse (cfg_reporters config) [],
       pluginCache = Map.empty,
       effects = [] \<rparr>"

subsection \<open>Glob matching\<close>

definition isGlobMatch :: "host \<Rightarrow> string \<Rightarrow> string \<Rightarrow> bool" where
  "isGlobMatch h filePath pattern =
     (isMatch h filePath pattern \<or> isMatch h (basename h filePath) pattern)"

text \<open>The loop of \<open>matchGlobMap\<close> over the visited properties; \<open>None\<close> is the \<open>null\<close> it returns.\<close>

fun matchGlobMap_loop :: "host \<Rightarrow> string \<Rightarrow> (string \<times> 'v) list \<Rightarrow> 'v option" where
  "matchGlobMap_loop h filePath [] = None"
| "matchGlobMap_loop h filePath ((pattern, v) # rest) =
     (if isGlobMatch h filePath pattern then Some v
      else matchGlobMap_loop h filePath rest)"

definition matchGlobMap :: "host \<Rightarrow> string \<Rightarrow> 'v GlobMap \<Rightarrow> 'v option" where
  "matchGlobMap h filePath globMap = matchGlobMap_loop h filePath (forIn globMap)"

text \<open>The first loop of \<open>matchGlobMapPipelines\<close>: \<open>matches\<close> after the loop.\<close>

fun collectMatches :: "host \<Rightarrow> string \<Rightarrow> (string \<times> 'v) list \<Rightarrow> 'v list" where
  "collectMatches h filePath [] = []"
| "collectMatches h filePath ((pattern, v) # rest) =
     (if isGlobMatch h filePath pattern then v # collectMatches h filePath rest
      else collectMatches h filePath rest)"

definition spread :: PackageName where
  "spread = ''...''"

text \<open>\<open>Array.prototype.indexOf\<close>: the first index of the element, \<open>-1\<close> when it is absent.\<close>

fun indexOf :: "'a list \<Rightarrow> 'a \<Rightarrow> int" where
  "indexOf [] x = -1"
| "indexOf (y # ys) x =
     (if y = x then 0 else (let i = indexOf ys x in if i < 0 then -1 else i + 1))"

text \<open>\<open>xs.slice(s, e)\<close> and \<open>xs.slice(s)\<close> for indices that are not negative.\<close>

definition slice :: "'a list \<Rightarrow> int \<Rightarrow> int \<Rightarrow> 'a list" where
  "slice xs s e = drop (nat s) (take (nat e) xs)"

definition sliceFrom :: "'a list \<Rightarrow> int \<Rightarrow> 'a list" where
  "sliceFrom xs s = drop (nat s) xs"

definition spreadError :: error where
  "spreadError = Error ''Only one spread parameter can be included in a config pipeline''"

text \<open>
  The closure \<open>flatten\<close>, with the queue \<open>matches\<close> it mutates as its argument:
  \<open>matches.shift() || []\<close> takes the head of the queue, or the empty pipeline when the queue
  is empty, and the one recursive call sees the queue without that head. An exception
  of the recursive call leaves through the caller.
\<close>

fun flatten :: "Pipeline list \<Rightarrow> error + Pipeline" where
  "flatten [] = Inr []"
| "flatten (pipeline # matches) =
     (let spreadIndex = indexOf pipeline spread in
      if spreadIndex \<ge> 0 then
        (case flatten matches of
           Inl e \<Rightarrow> Inl e
         | Inr sub \<Rightarrow>
             (let pipeline' = slice pipeline 0 spreadIndex @ sub @ sliceFrom pipeline (spreadIndex + 1)
              in if spread \<in> set pipeline' then Inl spreadError else Inr pipeline'))
      else if spread \<in> set pipeline then Inl spreadError
      else Inr pipeline)"

definition matchGlobMapPipelines :: "host \<Rightarrow> string \<Rightarrow> Pipeline GlobMap \<Rightarrow> error + Pipeline" where
  "matchGlobMapPipelines h filePath globMap = flatten (collectMatches h filePath (forIn globMap))"

subsection \<open>Loading plugins\<close>

definition quoted :: "string \<Rightarrow> string" where
  "quoted s = CHR 0x22 # s @ [CHR 0x22]"

definition warnMessage :: "PackageName \<Rightarrow> string" where
  "warnMessage pluginName =
     ''The plugin '' @ quoted pluginName @ '' needs to specify a '' @ [CHR 0x60]
     @ ''package.json#engines.parcel'' @ [CHR 0x60]
     @ '' field with the supported Parcel version range.''"

definition incompatibleMessage :: "PackageName \<Rightarrow> string \<Rightarrow> string \<Rightarrow> string" where
  "incompatibleMessage pluginName rng version =
     ''The plugin '' @ quoted pluginName
     @ '' is not compatible with the current version of Parcel. Requires '' @ quoted rng
     @ '' but the current version is '' @ quoted version @ ''.''"

text \<open>\<open>this.pluginCache.get(pluginName)\<close>: \<open>undefined\<close> for a key the Map does not hold.\<close>

definition cacheGet :: "(PackageName \<rightharpoonup> jsval) \<Rightarrow> PackageName \<Rightarrow> jsval" where
  "cacheGet m k = (case m k of None \<Rightarrow> JUndefined | Some v \<Rightarrow> v)"

definition logEffect :: "effect \<Rightarrow> Config \<Rightarrow> Config" where
  "logEffect e c = c\<lparr>effects := effects c @ [e]\<rparr>"

text \<open>
  \<open>pkg.engines && pkg.engines.parcel\<close> when it is truthy (a string that is not empty);
  \<open>None\<close> when it is falsy: \<open>engines\<close> absent, \<open>parcel\<close> absent or the empty string.
\<close>

definition parcelVersionRange :: "package_json \<Rightarrow> string option" where
  "parcelVersionRange pkg =
     (case engines pkg of
        None \<Rightarrow> None
      | Some e \<Rightarrow> (case parcel e of None \<Rightarrow> None | Some s \<Rightarrow> if s = [] then None else Some s))"

text \<open>
  \<open>loadPlugin\<close> is an async function with one \<open>await\<close>. A call runs at once, without
  interruption, up to the \<open>await\<close>: it reads the cache and either returns the cached value
  or calls \<open>localRequire.resolve\<close> and suspends (\<open>loadPlugin_begin\<close>). When the resolution
  has settled the call continues, again without interruption, to its end
  (\<open>loadPlugin_resume\<close>): the version check, \<open>require\<close>, the extraction of the \<open>CONFIG\<close>
  export and the write to the cache. Other calls may run between the two parts.
\<close>

datatype plugin_call = Settled "error + jsval" | AwaitingResolve PackageName

definition loadPlugin_begin :: "Config \<Rightarrow> PackageName \<Rightarrow> plugin_call \<times> Config" where
  "loadPlugin_begin c pluginName =
     (let cached = cacheGet (pluginCache c) pluginName in
      if truthy cached then (Settled (Inr cached), c)
      else (AwaitingResolve pluginName, logEffect (ResolveCall pluginName (configPath c)) c))"

text \<open>Lines 83 to 87: \<open>require\<close>, the default export, the \<open>CONFIG\<close> export, the cache.\<close>

definition requirePlugin :: "host \<Rightarrow> Config \<Rightarrow> PackageName \<Rightarrow> string \<Rightarrow> (error + jsval) \<times> Config" where
  "requirePlugin h c pluginName resolved =
     (let c1 = logEffect (RequireCall resolved) c in
      case require h resolved of
        Inl e \<Rightarrow> (Inl e, c1)
      | Inr m \<Rightarrow>
          (case getProp m (KString ''default'') of
             Inl e \<Rightarrow> (Inl e, c1)
           | Inr d \<Rightarrow>
               (case getProp (if truthy d then d else m) CONFIG of
                  Inl e \<Rightarrow> (Inl e, c1)
                | Inr plugin \<Rightarrow>
                    (Inr plugin, c1\<lparr>pluginCache := (pluginCache c1)(pluginName \<mapsto> plugin)\<rparr>))))"

definition loadPlugin_resume :: "host \<Rightarrow> Config \<Rightarrow> PackageName \<Rightarrow> (error + jsval) \<times> Config" where
  "loadPlugin_resume h c pluginName =
     (case localRequire_resolve h pluginName (configPath c) of
        Inl e \<Rightarrow> (Inl e, c)
      | Inr (resolved, pkg) \<Rightarrow>
          (case parcelVersionRange pkg of
             None \<Rightarrow> requirePlugin h (logEffect (WarnCall (warnMessage pluginName)) c) pluginName resolved
           | Some rng \<Rightarrow>
               (let c1 = logEffect (SatisfiesCall (PARCEL_VERSION h) rng) c in
                if \<not> semver_satisfies h (PARCEL_VERSION h) rng
                then (Inl (Error (incompatibleMessage pluginName rng (PARCEL_VERSION h))), c1)
                else requirePlugin h c1 pluginName resolved)))"

text \<open>A call that is awaited before anything else runs: \<open>await config.loadPlugin(name)\<close>.\<close>

definition loadPlugin :: "host \<Rightarrow> Config \<Rightarrow> PackageName \<Rightarrow> (error + jsval) \<times> Config" where
  "loadPlugin h c pluginName =
     (case loadPlugin_begin c pluginName of
        (Settled r, c1) \<Rightarrow> (r, c1)
      | (AwaitingResolve n, c1) \<Rightarrow> loadPlugin_resume h c1 n)"

text \<open>
  \<open>loadPlugins\<close>: \<open>plugins.map(pluginName => this.loadPlugin(pluginName))\<close> starts every call,
  in the order of the pipeline, before any of them continues (\<open>beginAll\<close>). The suspended
  calls then continue in the order in which their resolutions settle, which the program
  does not decide: \<open>sched\<close> lists the indices of the calls in that order, and the calls it
  leaves out continue after it, in the order of the pipeline. \<open>Promise.all\<close> rejects with
  the first rejection and otherwise fulfils with the values in the order of the pipeline.
\<close>

fun beginAll :: "Config \<Rightarrow> Pipeline \<Rightarrow> plugin_call list \<times> Config" where
  "beginAll c [] = ([], c)"
| "beginAll c (p # ps) =
     (case loadPlugin_begin c p of
        (t, c1) \<Rightarrow> (case beginAll c1 ps of (ts, c2) \<Rightarrow> (t # ts, c2)))"

definition resumeAt :: "host \<Rightarrow> nat \<Rightarrow> plugin_call list \<times> Config \<times> error option \<Rightarrow> plugin_call list \<times> Config \<times> error option" where
  "resumeAt h i s =
     (case s of (ts, c, rejected) \<Rightarrow>
        if i < length ts then
          (case ts ! i of
             Settled r \<Rightarrow> s
           | AwaitingResolve n \<Rightarrow>
               (case loadPlugin_resume h c n of
                  (r, c1) \<Rightarrow>
                    (ts[i := Settled r], c1,
                     (case rejected of
                        Some e \<Rightarrow> Some e
                      | None \<Rightarrow> (case r of Inl e \<Rightarrow> Some e | Inr v \<Rightarrow> None)))))
        else s)"

text \<open>
  The value of a fulfilled call. When no call was rejected every call of the list is
  fulfilled, and the second equation is not used.
\<close>

fun callValue :: "plugin_call \<Rightarrow> jsval" where
  "callValue (Settled (Inr v)) = v"
| "callValue t = JUndefined"

definition loadPlugins :: "host \<Rightarrow> Config \<Rightarrow> Pipeline \<Rightarrow> nat list \<Rightarrow> (error + jsval list) \<times> Config" where
  "loadPlugins h c plugins sched =
     (case beginAll c plugins of
        (ts, c1) \<Rightarrow>
          (case fold (resumeAt h) (sched @ [0..<length ts]) (ts, c1, None) of
             (ts1, c2, rejected) \<Rightarrow>
               (case rejected of
                  Some e \<Rightarrow> (Inl e, c2)
                | None \<Rightarrow> (Inr (map callValue ts1), c2))))"

subsection \<open>The accessors of the phases\<close>

definition getResolvers :: "host \<Rightarrow> Config \<Rightarrow> nat list \<Rightarrow> (error + jsval list) \<times> Config" where
  "getResolvers h c sched =
     (if length (resolvers c) = 0
      then (Inl (Error ''No resolver plugins specified in .parcelrc config''), c)
      else loadPlugins h c (resolvers c) sched)"

text \<open>\<open>!transformers\<close> is false for every array; an exception of \<open>matchGlobMapPipelines\<close> leaves the method.\<close>

definition getTransformers :: "host \<Rightarrow> Config \<Rightarrow> string \<Rightarrow> nat list \<Rightarrow> (error + jsval list) \<times> Config" where
  "getTransformers h c filePath sched =
     (case matchGlobMapPipelines h filePath (transforms c) of
        Inl e \<Rightarrow> (Inl e, c)
      | Inr transformers \<Rightarrow>
          if length transformers = 0
          then (Inl (Error (''No transformers found for '' @ quoted filePath @ ''.'')), c)
          else loadPlugins h c transformers sched)"

definition getBundler :: "host \<Rightarrow> Config \<Rightarrow> (error + jsval) \<times> Config" where
  "getBundler h c =
     (if bundler c = []
      then (Inl (Error ''No bundler specified in .parcelrc config''), c)
      else loadPlugin h c (bundler c))"

definition getNamers :: "host \<Rightarrow> Config \<Rightarrow> nat list \<Rightarrow> (error + jsval list) \<times> Config" where
  "getNamers h c sched =
     (if length (namers c) = 0
      then (Inl (Error ''No namer plugins specified in .parcelrc config''), c)
      else loadPlugins h c (namers c) sched)"

definition getRuntimes :: "host \<Rightarrow> Config \<Rightarrow> EnvironmentContext \<Rightarrow> nat list \<Rightarrow> (error + jsval list) \<times> Config" where
  "getRuntimes h c ctx sched =
     (case runtimes c ctx of
        None \<Rightarrow> (Inr [], c)
      | Some rs \<Rightarrow> loadPlugins h c rs sched)"

text \<open>\<open>!packagerName\<close> holds for \<open>null\<close> and for the empty string.\<close>

definition getPackager :: "host \<Rightarrow> Config \<Rightarrow> string \<Rightarrow> (error + jsval) \<times> Config" where
  "getPackager h c filePath =
     (case matchGlobMap h filePath (packagers c) of
        None \<Rightarrow> (Inl (Error (''No packager found for '' @ quoted filePath @ ''.'')), c)
      | Some packagerName \<Rightarrow>
          if packagerName = []
          then (Inl (Error (''No packager found for '' @ quoted filePath @ ''.'')), c)
          else loadPlugin h c packagerName)"

text \<open>\<open>!optimizers\<close> is false for every array, also for the empty one.\<close>

definition getOptimizers :: "host \<Rightarrow> Config \<Rightarrow> string \<Rightarrow> nat list \<Rightarrow> (error + jsval list) \<times> Config" where
  "getOptimizers h c filePath sched =
     (case matchGlobMapPipelines h filePath (optimizers c) of
        Inl e \<Rightarrow> (Inl e, c)
      | Inr opts \<Rightarrow> loadPlugins h c opts sched)"

section \<open>Concrete collaborators\<close>

text \<open>
  The theorems below hold for every host. To run the methods on concrete inputs the
  collaborators are instantiated with small fragments of the libraries: a glob matcher
  with literal characters and \<open>*\<close> (any run of characters other than \<open>/\<close>), the basename of
  a POSIX path, and semantic-version satisfaction for the ranges \<open>^x.y.z\<close> and \<open>x.y.z\<close>.
\<close>

fun globMatch :: "string \<Rightarrow> string \<Rightarrow> bool" where
  "globMatch [] [] = True"
| "globMatch (c # cs) [] = False"
| "globMatch [] (p # ps) = (p = CHR ''*'' \<and> globMatch [] ps)"
| "globMatch (c # cs) (p # ps) =
     (if p = CHR ''*''
      then globMatch (c # cs) ps \<or> (c \<noteq> CHR ''/'' \<and> globMatch cs (p # ps))
      else c = p \<and> globMatch cs ps)"

definition posixBasename :: "string \<Rightarrow> string" where
  "posixBasename s =
     rev (takeWhile (\<lambda>c. c \<noteq> CHR ''/'') (dropWhile (\<lambda>c. c = CHR ''/'') (rev s)))"

fun splitOn :: "char \<Rightarrow> string \<Rightarrow> string list" where
  "splitOn d [] = [[]]"
| "splitOn d (x # xs) =
     (if x = d then [] # splitOn d xs
      else (case splitOn d xs of [] \<Rightarrow> [[x]] | w # ws \<Rightarrow> (x # w) # ws))"

definition isNumeral :: "string \<Rightarrow> bool" where
  "isNumeral s = (s \<noteq> [] \<and> list_all isDigit s)"

definition parseVersion :: "string \<Rightarrow> (int \<times> int \<times> int) option" where
  "parseVersion s =
     (case splitOn CHR ''.'' s of
        [a, b, c] \<Rightarrow>
          if isNumeral a \<and> isNumeral b \<and> isNumeral c
          then Some (decimal a, decimal b, decimal c) else None
      | _ \<Rightarrow> None)"

definition caretSatisfies :: "int \<times> int \<times> int \<Rightarrow> int \<times> int \<times> int \<Rightarrow> bool" where
  "caretSatisfies v r =
     (case v of (x, y, z) \<Rightarrow> case r of (a, b, c) \<Rightarrow>
        if a > 0 then x = a \<and> (y > b \<or> (y = b \<and> z \<ge> c))
        else if b > 0 then x = 0 \<and> y = b \<and> z \<ge> c
        else x = 0 \<and> y = 0 \<and> z = c)"

definition semverSatisfies :: "string \<Rightarrow> string \<Rightarrow> bool" where
  "semverSatisfies version rng =
     (case parseVersion version of
        None \<Rightarrow> False
      | Some v \<Rightarrow>
          (case rng of
             [] \<Rightarrow> False
           | c # rest \<Rightarrow>
               if c = CHR ''^''
               then (case parseVersion rest of None \<Rightarrow> False | Some r \<Rightarrow> caretSatisfies v r)
               else (case parseVersion rng of None \<Rightarrow> False | Some r \<Rightarrow> v = r)))"

text \<open>
  Two installed plugins: one whose module has a default export with the \<open>CONFIG\<close> export,
  and one whose module exports nothing under \<open>CONFIG\<close>. Both declare
  \<open>engines: {parcel: "^2.0.0"}\<close>. No other module is installed.
\<close>

definition demoResolve :: "string \<Rightarrow> string \<Rightarrow> error + (string \<times> package_json)" where
  "demoResolve name base =
     (if name = ''parcel-transformer-js''
      then Inr (''/app/node_modules/parcel-transformer-js/index.js'',
                \<lparr>engines = Some \<lparr>parcel = Some ''^2.0.0''\<rparr>\<rparr>)
      else if name = ''parcel-plugin-bare''
      then Inr (''/app/node_modules/parcel-plugin-bare/index.js'',
                \<lparr>engines = Some \<lparr>parcel = Some ''^2.0.0''\<rparr>\<rparr>)
      else Inl (Error (''Cannot find module '' @ name)))"

definition demoPlugin :: jsval where
  "demoPlugin = JObj 3 [(KString ''transform'', JObj 4 [])]"

definition demoRequire :: "string \<Rightarrow> error + jsval" where
  "demoRequire file =
     (if file = ''/app/node_modules/parcel-transformer-js/index.js''
      then Inr (JObj 1 [(KString ''default'', JObj 2 [(CONFIG, demoPlugin)])])
      else if file = ''/app/node_modules/parcel-plugin-bare/index.js''
      then Inr (JObj 5 [])
      else Inl (Error (''Cannot find module '' @ file)))"

definition demoHost :: "string \<Rightarrow> host" where
  "demoHost version =
     \<lparr> isMatch = globMatch,
       basename = posixBasename,
       localRequire_resolve = demoResolve,
       semver_satisfies = semverSatisfies,
       require = demoRequire,
       PARCEL_VERSION = version \<rparr>"

definition emptyParcelConfig :: ParcelConfig where
  "emptyParcelConfig =
     \<lparr> cfg_resolvers = None, cfg_transforms = None, cfg_runtimes = None, cfg_bundler = None,
       cfg_namers = None, cfg_packagers = None, cfg_optimizers = None, cfg_reporters = None \<rparr>"

definition demoConfig :: Config where
  "demoConfig = newConfig emptyParcelConfig ''/app/.parcelrc''"


section \<open>Notions used in the statements\<close>

text \<open>
  The reading of the specification for \<open>matchGlobMap\<close>: the value of the first entry, in
  the order of the given list, whose pattern matches; nothing when no pattern matches.
\<close>

definition firstDeclaredMatch :: "host \<Rightarrow> string \<Rightarrow> (string \<times> 'v) list \<Rightarrow> 'v option" where
  "firstDeclaredMatch h filePath entries =
     map_option snd (find (\<lambda>kv. isGlobMatch h filePath (fst kv)) entries)"

text \<open>
  What a continuation of \<open>loadPlugin\<close> leaves behind: the effects it added and, when it
  returned a value, that value in the cache.
\<close>

definition storeResult :: "PackageName \<Rightarrow> error + jsval \<Rightarrow> effect list \<Rightarrow> Config \<Rightarrow> Config" where
  "storeResult n r evs c =
     c\<lparr>effects := effects c @ evs,
       pluginCache := (case r of Inl e \<Rightarrow> pluginCache c | Inr v \<Rightarrow> (pluginCache c)(n \<mapsto> v))\<rparr>"

text \<open>The value that lines 83 to 85 extract from the module of a resolved file.\<close>

definition pluginOf :: "host \<Rightarrow> string \<Rightarrow> error + jsval" where
  "pluginOf h f =
     (case require h f of
        Inl e \<Rightarrow> Inl e
      | Inr m \<Rightarrow>
          (case getProp m (KString ''default'') of
             Inl e \<Rightarrow> Inl e
           | Inr d \<Rightarrow> getProp (if truthy d then d else m) CONFIG))"

text \<open>The result of a continuation and the effects it adds; \<open>loadPlugin_resume_eq\<close> below.\<close>

definition resumeOutcome :: "host \<Rightarrow> string \<Rightarrow> PackageName \<Rightarrow> (error + jsval) \<times> effect list" where
  "resumeOutcome h path n =
     (case localRequire_resolve h n path of
        Inl e \<Rightarrow> (Inl e, [])
      | Inr (f, pkg) \<Rightarrow>
          (case parcelVersionRange pkg of
             None \<Rightarrow> (pluginOf h f, [WarnCall (warnMessage n), RequireCall f])
           | Some rng \<Rightarrow>
               if \<not> semver_satisfies h (PARCEL_VERSION h) rng
               then (Inl (Error (incompatibleMessage n rng (PARCEL_VERSION h))),
                     [SatisfiesCall (PARCEL_VERSION h) rng])
               else (pluginOf h f, [SatisfiesCall (PARCEL_VERSION h) rng, RequireCall f])))"

text \<open>The instance after \<open>k\<close> calls of \<open>loadPlugin\<close> for one name, each awaited before the next.\<close>

fun loadPluginTimes :: "host \<Rightarrow> Config \<Rightarrow> PackageName \<Rightarrow> nat \<Rightarrow> Config" where
  "loadPluginTimes h c pluginName 0 = c"
| "loadPluginTimes h c pluginName (Suc k) =
     loadPluginTimes h (snd (loadPlugin h c pluginName)) pluginName k"

text \<open>
  A configuration that names plugins for style sheets and for the Node runtime only, and
  no resolvers, bundler or namers.
\<close>

definition cssConfig :: Config where
  "cssConfig =
     newConfig
       (emptyParcelConfig
          \<lparr> cfg_transforms := Some [(''*.css'', [''parcel-transformer-css''])],
            cfg_runtimes := Some [Node \<mapsto> [''parcel-runtime-node'']],
            cfg_packagers := Some [(''*.css'', ''parcel-packager-css'')],
            cfg_optimizers := Some [(''*.css'', [''parcel-optimizer-css''])] \<rparr>)
       ''/app/.parcelrc''"

text \<open>The calls of one run of \<open>loadPlugins\<close> are all for the name \<open>n\<close>: suspended or settled.\<close>

definition callsFor :: "PackageName \<Rightarrow> plugin_call list \<Rightarrow> bool" where
  "callsFor n ts = (\<forall>t\<in>set ts. t = AwaitingResolve n \<or> (\<exists>r. t = Settled r))"

section \<open>Glob matching\<close>

lemma forIn_no_index: "\<forall>kv\<in>set m. \<not> isArrayIndex (fst kv) \<Longrightarrow> forIn m = m"
  by (simp add: forIn_def filter_empty_conv)

lemma set_forIn: "set (forIn m) = set m"
  by (auto simp: forIn_def)

lemma matchGlobMap_loop_find:
  "matchGlobMap_loop h F es = map_option snd (find (\<lambda>kv. isGlobMatch h F (fst kv)) es)"
  by (induction es) auto

lemma matchGlobMap_loop_None:
  "(matchGlobMap_loop h F es = None) = (\<forall>kv\<in>set es. \<not> isGlobMatch h F (fst kv))"
  by (induction es) (auto split: if_splits)

lemma collectMatches_filter:
  "collectMatches h F es = map snd (filter (\<lambda>kv. isGlobMatch h F (fst kv)) es)"
  by (induction es) auto

text \<open>
  C7. \<open>isGlobMatch(F, P)\<close> is true exactly when \<open>P\<close> matches the full path \<open>F\<close> or \<open>P\<close> matches
  the basename of \<open>F\<close>; in particular when \<open>P\<close> matches only the basename, and when \<open>P\<close>
  matches only the full path.
\<close>

theorem isGlobMatch_full_or_basename:
  "isGlobMatch h F P = (isMatch h F P \<or> isMatch h (basename h F) P)
   \<and> (isMatch h (basename h F) P \<and> \<not> isMatch h F P \<longrightarrow> isGlobMatch h F P)
   \<and> (isMatch h F P \<and> \<not> isMatch h (basename h F) P \<longrightarrow> isGlobMatch h F P)"
  by (simp add: isGlobMatch_def)

text \<open>
  With the concrete matcher: \<open>*.js\<close> matches \<open>src/a.js\<close> through its basename only,
  \<open>src/*.js\<close> through the full path only, and \<open>*.css\<close> not at all.
\<close>

theorem isGlobMatch_full_or_basename_witness:
  "isMatch (demoHost ''2.3.1'') (basename (demoHost ''2.3.1'') ''src/a.js'') ''*.js''
   \<and> \<not> isMatch (demoHost ''2.3.1'') ''src/a.js'' ''*.js''
   \<and> isGlobMatch (demoHost ''2.3.1'') ''src/a.js'' ''*.js''
   \<and> isMatch (demoHost ''2.3.1'') ''src/a.js'' ''src/*.js''
   \<and> \<not> isMatch (demoHost ''2.3.1'') (basename (demoHost ''2.3.1'') ''src/a.js'') ''src/*.js''
   \<and> isGlobMatch (demoHost ''2.3.1'') ''src/a.js'' ''src/*.js''
   \<and> \<not> isGlobMatch (demoHost ''2.3.1'') ''src/a.js'' ''*.css''"
  using isGlobMatch_full_or_basename [of "demoHost ''2.3.1''" "''src/a.js''" "''*.js''"]
    isGlobMatch_full_or_basename [of "demoHost ''2.3.1''" "''src/a.js''" "''src/*.js''"]
    isGlobMatch_full_or_basename [of "demoHost ''2.3.1''" "''src/a.js''" "''*.css''"]
  by (simp add: demoHost_def posixBasename_def)

text \<open>
  C5, as the code has it. \<open>matchGlobMap\<close> returns the value of the first matching pattern
  in the order in which \<open>for ... in\<close> visits the keys, and \<open>null\<close> exactly when no pattern
  matches. For a mapping none of whose patterns is an array index that order is the
  order of declaration, so the first declared match wins whatever the specificity of
  the patterns: over \<open>{"*.css": a, "*.module.css": b}\<close> and \<open>x.module.css\<close> the result is \<open>a\<close>.
\<close>

theorem matchGlobMap_first_visited:
  "matchGlobMap h F m = firstDeclaredMatch h F (forIn m)
   \<and> ((\<forall>kv\<in>set m. \<not> isArrayIndex (fst kv)) \<longrightarrow> matchGlobMap h F m = firstDeclaredMatch h F m)
   \<and> ((matchGlobMap h F m = None) = (\<forall>kv\<in>set m. \<not> isGlobMatch h F (fst kv)))
   \<and> (isGlobMatch h ''x.module.css'' ''*.css'' \<longrightarrow>
        matchGlobMap h ''x.module.css'' [(''*.css'', a), (''*.module.css'', b)] = Some a)"
proof -
  have visited: "matchGlobMap h F m = firstDeclaredMatch h F (forIn m)"
    by (simp add: matchGlobMap_def firstDeclaredMatch_def matchGlobMap_loop_find)
  have declared: "(\<forall>kv\<in>set m. \<not> isArrayIndex (fst kv)) \<longrightarrow>
      matchGlobMap h F m = firstDeclaredMatch h F m"
    by (simp add: visited forIn_no_index)
  have none: "(matchGlobMap h F m = None) = (\<forall>kv\<in>set m. \<not> isGlobMatch h F (fst kv))"
    by (simp add: matchGlobMap_def matchGlobMap_loop_None set_forIn)
  have ex: "forIn [(''*.css'', a), (''*.module.css'', b)] = [(''*.css'', a), (''*.module.css'', b)]"
    by (rule forIn_no_index) (simp add: isArrayIndex_def isDigit_def)
  have example: "isGlobMatch h ''x.module.css'' ''*.css'' \<longrightarrow>
      matchGlobMap h ''x.module.css'' [(''*.css'', a), (''*.module.css'', b)] = Some a"
    by (simp add: matchGlobMap_def ex)
  from visited declared none example show ?thesis by blast
qed

theorem matchGlobMap_first_visited_witness:
  "matchGlobMap (demoHost ''2.3.1'') ''x.module.css''
     [(''*.css'', ''pkgA''), (''*.module.css'', ''pkgB'')] = Some ''pkgA''
   \<and> isGlobMatch (demoHost ''2.3.1'') ''x.module.css'' ''*.module.css''
   \<and> matchGlobMap (demoHost ''2.3.1'') ''x.js''
     [(''*.css'', ''pkgA''), (''*.module.css'', ''pkgB'')] = None"
proof -
  have m1: "isGlobMatch (demoHost ''2.3.1'') ''x.module.css'' ''*.css''"
    and m2: "isGlobMatch (demoHost ''2.3.1'') ''x.module.css'' ''*.module.css''"
    and m3: "\<not> isGlobMatch (demoHost ''2.3.1'') ''x.js'' ''*.css''"
    and m4: "\<not> isGlobMatch (demoHost ''2.3.1'') ''x.js'' ''*.module.css''"
    by (simp_all add: isGlobMatch_def demoHost_def posixBasename_def)
  note t1 = matchGlobMap_first_visited [of "demoHost ''2.3.1''" "''x.module.css''"
      "[(''*.css'', ''pkgA''), (''*.module.css'', ''pkgB'')]" "''pkgA''" "''pkgB''"]
  note t2 = matchGlobMap_first_visited [of "demoHost ''2.3.1''" "''x.js''"
      "[(''*.css'', ''pkgA''), (''*.module.css'', ''pkgB'')]" "''pkgA''" "''pkgB''"]
  from t1 m1 have a: "matchGlobMap (demoHost ''2.3.1'') ''x.module.css''
     [(''*.css'', ''pkgA''), (''*.module.css'', ''pkgB'')] = Some ''pkgA''"
    by blast
  have b: "matchGlobMap (demoHost ''2.3.1'') ''x.js''
     [(''*.css'', ''pkgA''), (''*.module.css'', ''pkgB'')] = None"
    using t2 [THEN conjunct2, THEN conjunct2, THEN conjunct1] by (simp add: m3 m4)
  from a m2 b show ?thesis by simp
qed

text \<open>
  C5 as stated fails where a pattern is an array index: in \<open>{"*": "pkgA", "1": "pkgB"}\<close> the
  key \<open>1\<close> is visited before \<open>*\<close>, so for the path \<open>1\<close>, which both patterns match, the result
  is \<open>pkgB\<close> and not the first declared match \<open>pkgA\<close>.
\<close>

theorem matchGlobMap_declared_order_counterexample:
  "matchGlobMap (demoHost ''2.3.1'') ''1'' [(''*'', ''pkgA''), (''1'', ''pkgB'')] = Some ''pkgB''
   \<and> firstDeclaredMatch (demoHost ''2.3.1'') ''1'' [(''*'', ''pkgA''), (''1'', ''pkgB'')] = Some ''pkgA''"
  by (simp add: matchGlobMap_def firstDeclaredMatch_def forIn_def isArrayIndex_def isDigit_def
      decimal_def isGlobMatch_def demoHost_def)

section \<open>Spread composition\<close>

lemma indexOf_absent: "x \<notin> set xs \<Longrightarrow> indexOf xs x = -1"
  by (induction xs) auto

lemma indexOf_nonneg_iff: "(indexOf xs x \<ge> 0) = (x \<in> set xs)"
  by (induction xs) (auto simp: Let_def)

lemma indexOf_first: "x \<notin> set pre \<Longrightarrow> indexOf (pre @ x # post) x = int (length pre)"
  by (induction pre) (auto simp: Let_def)

text \<open>What \<open>flatten\<close> returns holds no spread marker, and it fails in one way only.\<close>

lemma flatten_no_spread: "flatten q = Inr p \<Longrightarrow> spread \<notin> set p"
  by (cases q) (auto simp: Let_def split: if_splits sum.splits)

lemma flatten_error: "flatten q = Inl e \<Longrightarrow> e = spreadError"
  by (induction q arbitrary: e) (auto simp: Let_def split: if_splits sum.splits)

text \<open>A head without a marker is returned as it is, and the rest of the queue is not read.\<close>

lemma flatten_plain: "spread \<notin> set p \<Longrightarrow> flatten (p # q) = Inr p"
  by (simp add: indexOf_absent)

text \<open>A head with a marker: the flattened rest replaces the first marker.\<close>

lemma flatten_spread:
  assumes "spread \<notin> set pre"
  shows "flatten ((pre @ spread # post) # q) =
           (case flatten q of
              Inl e \<Rightarrow> Inl e
            | Inr sub \<Rightarrow> if spread \<in> set post then Inl spreadError else Inr (pre @ sub @ post))"
  using assms
  by (auto simp: indexOf_first slice_def sliceFrom_def Let_def nat_add_distrib
      dest: flatten_no_spread split: sum.splits)

lemma one_spread_split:
  assumes "x \<in> set p" "count_list p x \<le> 1"
  shows "\<exists>pre post. p = pre @ x # post \<and> x \<notin> set pre \<and> x \<notin> set post"
proof -
  from assms(1) obtain pre post where p: "p = pre @ x # post" and pre: "x \<notin> set pre"
    by (meson split_list_first)
  from assms(2) p have "count_list post x = 0" by simp
  then have "x \<notin> set post" by (simp add: count_list_0_iff)
  with p pre show ?thesis by blast
qed

lemma two_spreads_split:
  assumes "count_list p x \<ge> 2"
  shows "\<exists>pre post. p = pre @ x # post \<and> x \<notin> set pre \<and> x \<in> set post"
proof -
  from assms have "x \<in> set p" by (metis count_list_0_iff not_numeral_le_zero)
  then obtain pre post where p: "p = pre @ x # post" and pre: "x \<notin> set pre"
    by (meson split_list_first)
  from pre have "count_list pre x = 0" by (simp add: count_list_0_iff)
  with assms p have "count_list post x \<ge> 1" by simp
  then have "x \<in> set post" by (metis count_list_0_iff not_one_le_zero)
  with p pre show ?thesis by blast
qed

text \<open>The last pipeline of the queue: its marker, if it has one, expands to nothing.\<close>

lemma flatten_last: "count_list p spread \<le> 1 \<Longrightarrow> flatten [p] = Inr (removeAll spread p)"
proof (cases "spread \<in> set p")
  case False
  then have "flatten [p] = Inr p" by (rule flatten_plain)
  moreover from False have "removeAll spread p = p" by (rule removeAll_id)
  ultimately show ?thesis by (simp only:)
next
  case True
  assume one: "count_list p spread \<le> 1"
  from one_spread_split [OF True one] obtain pre post where p: "p = pre @ spread # post"
    and a: "spread \<notin> set pre" and b: "spread \<notin> set post"
    by blast
  have f: "flatten [pre @ spread # post] = Inr (pre @ post)"
    by (simp add: flatten_spread [OF a] b del: flatten.simps(2))
  have r: "removeAll spread (pre @ spread # post) = pre @ post"
    using a b by simp
  show ?thesis by (simp only: p f r)
qed

lemma flatten_two_spreads:
  "k < length q \<Longrightarrow> \<forall>j<k. spread \<in> set (q ! j) \<Longrightarrow> count_list (q ! k) spread \<ge> 2
   \<Longrightarrow> flatten q = Inl spreadError"
proof (induction q arbitrary: k)
  case Nil
  then show ?case by simp
next
  case (Cons p q)
  show ?case
  proof (cases k)
    case 0
    with Cons.prems obtain pre post where
      p: "p = pre @ spread # post" "spread \<notin> set pre" "spread \<in> set post"
      using two_spreads_split [of p spread] by auto
    then show ?thesis
      by (auto simp: flatten_spread simp del: flatten.simps(2) split: sum.splits
          dest: flatten_error)
  next
    case (Suc k')
    from Cons.prems Suc have "spread \<in> set p" by auto
    then obtain pre post where p: "p = pre @ spread # post" "spread \<notin> set pre"
      by (meson split_list_first)
    from Cons.prems Suc have "k' < length q" "\<forall>j<k'. spread \<in> set (q ! j)"
      "count_list (q ! k') spread \<ge> 2" by auto
    then have "flatten q = Inl spreadError" by (rule Cons.IH)
    with p show ?thesis by (simp add: flatten_spread del: flatten.simps(2))
  qed
qed

text \<open>
  C1, as the code has it. Let the pipelines of the matching entries, in the order in
  which \<open>for ... in\<close> visits the keys, be a first pipeline with exactly one spread marker
  (\<open>pre\<close>, the marker, \<open>post\<close>) and a second pipeline \<open>p2\<close>. Then \<open>matchGlobMapPipelines\<close>
  returns \<open>pre\<close>, then \<open>p2\<close> (without its own marker, if it has one), then \<open>post\<close>. For a
  mapping of two entries, both matching, neither pattern an array index and no marker
  in the second pipeline, that is the first declared pipeline with the second spliced at
  the marker. When one entry matches and its pipeline has one marker, the marker expands
  to the empty sequence.
\<close>

theorem matchGlobMapPipelines_splice:
  "spread \<notin> set pre \<and> spread \<notin> set post \<longrightarrow>
     (collectMatches h F (forIn m) = [pre @ spread # post, p2] \<and> count_list p2 spread \<le> 1
        \<longrightarrow> matchGlobMapPipelines h F m = Inr (pre @ removeAll spread p2 @ post))
     \<and> ((\<forall>kv\<in>set m. \<not> isArrayIndex (fst kv)) \<and> m = [(g1, pre @ spread # post), (g2, p2)]
         \<and> isGlobMatch h F g1 \<and> isGlobMatch h F g2 \<and> spread \<notin> set p2
        \<longrightarrow> matchGlobMapPipelines h F m = Inr (pre @ p2 @ post))
     \<and> (collectMatches h F (forIn m) = [pre @ spread # post]
        \<longrightarrow> matchGlobMapPipelines h F m = Inr (pre @ post))"
  by (auto simp: matchGlobMapPipelines_def flatten_spread flatten_plain flatten_last forIn_no_index
      simp del: flatten.simps(2))

theorem matchGlobMapPipelines_splice_witness:
  "matchGlobMapPipelines (demoHost ''2.3.1'') ''x.js''
     [(''*.js'', [''a'', ''...'', ''c'']), (''*'', [''b'', ''d''])] = Inr [''a'', ''b'', ''d'', ''c'']
   \<and> matchGlobMapPipelines (demoHost ''2.3.1'') ''x.js''
     [(''*.js'', [''a'', ''...'', ''c'']), (''*.css'', [''b'', ''d''])] = Inr [''a'', ''c'']"
  using matchGlobMapPipelines_splice [of "[''a'']" "[''c'']" "demoHost ''2.3.1''" "''x.js''"
      "[(''*.js'', [''a'', ''...'', ''c'']), (''*'', [''b'', ''d''])]" "[''b'', ''d'']" "''*.js''" "''*''"]
    matchGlobMapPipelines_splice [of "[''a'']" "[''c'']" "demoHost ''2.3.1''" "''x.js''"
      "[(''*.js'', [''a'', ''...'', ''c'']), (''*.css'', [''b'', ''d''])]" "[''b'', ''d'']" "''*.js''" "''*''"]
  by (simp add: forIn_def isArrayIndex_def isDigit_def isGlobMatch_def demoHost_def spread_def
      posixBasename_def)

text \<open>
  C1 as stated fails where a pattern is an array index: in
  \<open>{"*": ["a", "...", "c"], "1": ["b"]}\<close> both patterns match the path \<open>1\<close> and the first
  declared pipeline holds the marker, but the key \<open>1\<close> is visited first, its pipeline has
  no marker, and the result is \<open>["b"]\<close>, not \<open>["a", "b", "c"]\<close>.
\<close>

theorem matchGlobMapPipelines_declared_order_counterexample:
  "isGlobMatch (demoHost ''2.3.1'') ''1'' ''*'' \<and> isGlobMatch (demoHost ''2.3.1'') ''1'' ''1''
   \<and> matchGlobMapPipelines (demoHost ''2.3.1'') ''1''
        [(''*'', [''a'', ''...'', ''c'']), (''1'', [''b''])] = Inr [''b'']"
  by (simp add: matchGlobMapPipelines_def forIn_def isArrayIndex_def isDigit_def decimal_def
      isGlobMatch_def demoHost_def spread_def)

text \<open>
  C3. If a pipeline that the recursion of \<open>flatten\<close> reaches (every pipeline before it in
  the queue holds a marker) holds two or more spread markers, so that a marker is left
  after the substitution at the first one, \<open>matchGlobMapPipelines\<close> fails with the
  composition error and returns no pipeline.
\<close>

theorem matchGlobMapPipelines_two_spreads_fail:
  "k < length (collectMatches h F (forIn m))
   \<and> (\<forall>j<k. spread \<in> set (collectMatches h F (forIn m) ! j))
   \<and> count_list (collectMatches h F (forIn m) ! k) spread \<ge> 2
   \<longrightarrow> matchGlobMapPipelines h F m
        = Inl (Error ''Only one spread parameter can be included in a config pipeline'')"
  using flatten_two_spreads [of k "collectMatches h F (forIn m)"]
  by (auto simp: matchGlobMapPipelines_def spreadError_def)

theorem matchGlobMapPipelines_two_spreads_fail_witness:
  "collectMatches (demoHost ''2.3.1'') ''x.js''
       (forIn [(''*.js'', [''a'', ''...'']), (''*'', [''...'', ''b'', ''...''])])
     = [[''a'', ''...''], [''...'', ''b'', ''...'']]
   \<and> matchGlobMapPipelines (demoHost ''2.3.1'') ''x.js''
       [(''*.js'', [''a'', ''...'']), (''*'', [''...'', ''b'', ''...''])]
     = Inl (Error ''Only one spread parameter can be included in a config pipeline'')"
  using matchGlobMapPipelines_two_spreads_fail [of 1 "demoHost ''2.3.1''" "''x.js''"
      "[(''*.js'', [''a'', ''...'']), (''*'', [''...'', ''b'', ''...''])]"]
  by (simp add: forIn_def isArrayIndex_def isDigit_def isGlobMatch_def demoHost_def spread_def
      less_Suc_eq)

section \<open>Loading plugins\<close>

lemma getProp_defined: "v \<noteq> JUndefined \<Longrightarrow> v \<noteq> JNull \<Longrightarrow> \<exists>w. getProp v k = Inr w"
  by (cases v) auto

lemma truthy_defined: "truthy v \<Longrightarrow> v \<noteq> JUndefined \<and> v \<noteq> JNull"
  by (cases v) auto

lemma pluginOf_defined:
  assumes "require h f = Inr m" "m \<noteq> JUndefined" "m \<noteq> JNull"
  shows "\<exists>v. pluginOf h f = Inr v"
proof -
  from assms obtain d where d: "getProp m (KString ''default'') = Inr d"
    using getProp_defined by blast
  have "(if truthy d then d else m) \<noteq> JUndefined \<and> (if truthy d then d else m) \<noteq> JNull"
    using assms truthy_defined by auto
  then obtain v where "getProp (if truthy d then d else m) CONFIG = Inr v"
    using getProp_defined by blast
  with assms d show ?thesis by (simp add: pluginOf_def)
qed

lemma configPath_storeResult [simp]: "configPath (storeResult n r evs c) = configPath c"
  by (simp add: storeResult_def)

lemma effects_storeResult [simp]: "effects (storeResult n r evs c) = effects c @ evs"
  by (simp add: storeResult_def)

lemma pluginCache_storeResult_Inr [simp]:
  "pluginCache (storeResult n (Inr v) evs c) = (pluginCache c)(n \<mapsto> v)"
  by (simp add: storeResult_def)

lemma pluginCache_storeResult_Inl [simp]:
  "pluginCache (storeResult n (Inl e) evs c) = pluginCache c"
  by (simp add: storeResult_def)

lemma storeResult_logEffect:
  "storeResult n r evs (logEffect e c) = storeResult n r (e # evs) c"
  by (cases r) (simp_all add: storeResult_def logEffect_def)

lemma storeResult_Inl_Nil: "storeResult n (Inl e) [] c = c"
  by (simp add: storeResult_def)

lemma storeResult_Inl_logEffect: "logEffect ev c = storeResult n (Inl e) [ev] c"
  by (simp add: storeResult_def logEffect_def)

text \<open>The methods of the class in terms of the notions above.\<close>

lemma requirePlugin_eq:
  "requirePlugin h c n f = (pluginOf h f, storeResult n (pluginOf h f) [RequireCall f] c)"
  by (simp add: requirePlugin_def pluginOf_def storeResult_def logEffect_def Let_def
      split: sum.splits)

lemma loadPlugin_resume_eq:
  "loadPlugin_resume h c n =
     (case resumeOutcome h (configPath c) n of (r, evs) \<Rightarrow> (r, storeResult n r evs c))"
  by (simp add: loadPlugin_resume_def resumeOutcome_def requirePlugin_eq storeResult_logEffect
      storeResult_Inl_Nil Let_def storeResult_Inl_logEffect [symmetric]
      split: sum.splits option.splits prod.splits)

lemma loadPlugin_hit:
  "truthy (cacheGet (pluginCache c) n) \<Longrightarrow> loadPlugin h c n = (Inr (cacheGet (pluginCache c) n), c)"
  by (simp add: loadPlugin_def loadPlugin_begin_def)

lemma loadPlugin_miss:
  "\<not> truthy (cacheGet (pluginCache c) n) \<Longrightarrow>
     loadPlugin h c n =
       (case resumeOutcome h (configPath c) n of
          (r, evs) \<Rightarrow> (r, storeResult n r (ResolveCall n (configPath c) # evs) c))"
  by (simp add: loadPlugin_def loadPlugin_begin_def loadPlugin_resume_eq logEffect_def
      storeResult_logEffect [unfolded logEffect_def] split: prod.splits)

lemma cacheGet_None: "m n = None \<Longrightarrow> \<not> truthy (cacheGet m n)"
  by (simp add: cacheGet_def)

lemma demo_resolve_js:
  "localRequire_resolve (demoHost v) ''parcel-transformer-js'' (configPath demoConfig)
     = Inr (''/app/node_modules/parcel-transformer-js/index.js'',
            \<lparr>engines = Some \<lparr>parcel = Some ''^2.0.0''\<rparr>\<rparr>)"
  by (simp add: demoHost_def demoResolve_def)


lemma demo_version:
  "PARCEL_VERSION (demoHost v) = v" "semver_satisfies (demoHost v) = semverSatisfies"
  by (simp_all add: demoHost_def)

lemma demo_cache_empty: "pluginCache demoConfig n = None"
  by (simp add: demoConfig_def newConfig_def)

lemma semver_demo: "\<not> semverSatisfies ''1.9.0'' ''^2.0.0''" "semverSatisfies ''2.3.1'' ''^2.0.0''"
  by (simp_all add: semverSatisfies_def parseVersion_def isNumeral_def isDigit_def decimal_def
      caretSatisfies_def)




lemma loadPlugin_Inr_cached:
  assumes "loadPlugin h c n = (Inr v, c1)" "truthy v"
  shows "cacheGet (pluginCache c1) n = v"
proof (cases "truthy (cacheGet (pluginCache c) n)")
  case True
  with assms show ?thesis by (auto simp: loadPlugin_hit)
next
  case False
  with assms show ?thesis
    by (auto simp: loadPlugin_miss cacheGet_def split: prod.splits)
qed

lemma loadPlugin_cache_cases:
  "pluginCache (snd (loadPlugin h c n)) = pluginCache c
   \<or> (\<not> truthy (cacheGet (pluginCache c) n)
       \<and> (\<exists>v. pluginCache (snd (loadPlugin h c n)) = (pluginCache c)(n \<mapsto> v)))"
proof (cases "truthy (cacheGet (pluginCache c) n)")
  case True
  then show ?thesis by (simp add: loadPlugin_hit)
next
  case False
  obtain r evs where o: "resumeOutcome h (configPath c) n = (r, evs)" by (cases "resumeOutcome h (configPath c) n")
  show ?thesis
    by (cases r) (auto simp: loadPlugin_miss [OF False] o False)
qed

text \<open>
  C8, as the code has it. After a call of \<open>loadPlugin\<close> that returned a truthy value (any
  plugin object is one), a second call for the same name returns that same value and
  leaves the instance as it is: no resolution, no version check, no \<open>require\<close>. The cache
  only grows: no call removes a key, and an entry with a truthy value is never replaced.
\<close>

theorem loadPlugin_cached_truthy:
  "(loadPlugin h c n = (Inr v, c1) \<and> truthy v \<longrightarrow> loadPlugin h c1 n = (Inr v, c1))
   \<and> dom (pluginCache c) \<subseteq> dom (pluginCache (snd (loadPlugin h c n)))
   \<and> (\<forall>k w. pluginCache c k = Some w \<and> truthy w \<longrightarrow>
         pluginCache (snd (loadPlugin h c n)) k = Some w)"
proof -
  have again: "loadPlugin h c n = (Inr v, c1) \<and> truthy v \<longrightarrow> loadPlugin h c1 n = (Inr v, c1)"
  proof
    assume a: "loadPlugin h c n = (Inr v, c1) \<and> truthy v"
    then have "cacheGet (pluginCache c1) n = v" using loadPlugin_Inr_cached by blast
    with a show "loadPlugin h c1 n = (Inr v, c1)" using loadPlugin_hit [of c1 n h] by simp
  qed
  have grows: "dom (pluginCache c) \<subseteq> dom (pluginCache (snd (loadPlugin h c n)))"
    using loadPlugin_cache_cases [of h c n] by auto
  have keeps: "pluginCache (snd (loadPlugin h c n)) k = Some w"
    if "pluginCache c k = Some w" "truthy w" for k w
    using loadPlugin_cache_cases [of h c n] that by (auto simp: cacheGet_def)
  from again grows keeps show ?thesis by blast
qed

lemma demo_resolve_bare:
  "localRequire_resolve (demoHost v) ''parcel-plugin-bare'' base
     = Inr (''/app/node_modules/parcel-plugin-bare/index.js'',
            \<lparr>engines = Some \<lparr>parcel = Some ''^2.0.0''\<rparr>\<rparr>)"
  by (simp add: demoHost_def demoResolve_def)

lemma demo_pluginOf_bare:
  "pluginOf (demoHost v) ''/app/node_modules/parcel-plugin-bare/index.js'' = Inr JUndefined"
  by (simp add: pluginOf_def demoHost_def demoRequire_def CONFIG_def)

lemma demo_pluginOf_js:
  "pluginOf (demoHost v) ''/app/node_modules/parcel-transformer-js/index.js'' = Inr demoPlugin"
  by (simp add: pluginOf_def demoHost_def demoRequire_def CONFIG_def)

lemma demo_outcome_bare:
  "resumeOutcome (demoHost ''2.3.1'') base ''parcel-plugin-bare'' =
     (Inr JUndefined, [SatisfiesCall ''2.3.1'' ''^2.0.0'',
                       RequireCall ''/app/node_modules/parcel-plugin-bare/index.js''])"
  by (simp add: resumeOutcome_def demo_resolve_bare parcelVersionRange_def demo_version
      semver_demo demo_pluginOf_bare)

lemma demo_outcome_js:
  "resumeOutcome (demoHost ''2.3.1'') base ''parcel-transformer-js'' =
     (Inr demoPlugin, [SatisfiesCall ''2.3.1'' ''^2.0.0'',
                       RequireCall ''/app/node_modules/parcel-transformer-js/index.js''])"
  by (simp add: resumeOutcome_def demoHost_def demoResolve_def parcelVersionRange_def
      semver_demo demo_pluginOf_js [unfolded demoHost_def])

lemma demo_configPath: "configPath demoConfig = ''/app/.parcelrc''"
  by (simp add: demoConfig_def newConfig_def)

lemma demo_effects: "effects demoConfig = []"
  by (simp add: demoConfig_def newConfig_def)

lemma truthy_demoPlugin: "truthy demoPlugin"
  by (simp add: demoPlugin_def)

theorem loadPlugin_cached_truthy_witness:
  "fst (loadPlugin (demoHost ''2.3.1'') demoConfig ''parcel-transformer-js'') = Inr demoPlugin
   \<and> truthy demoPlugin
   \<and> loadPlugin (demoHost ''2.3.1'')
        (snd (loadPlugin (demoHost ''2.3.1'') demoConfig ''parcel-transformer-js''))
        ''parcel-transformer-js''
      = (Inr demoPlugin, snd (loadPlugin (demoHost ''2.3.1'') demoConfig ''parcel-transformer-js''))"
proof -
  have first: "fst (loadPlugin (demoHost ''2.3.1'') demoConfig ''parcel-transformer-js'') = Inr demoPlugin"
    by (simp add: loadPlugin_miss cacheGet_None demo_cache_empty demo_outcome_js)
  then have "loadPlugin (demoHost ''2.3.1'') demoConfig ''parcel-transformer-js''
      = (Inr demoPlugin, snd (loadPlugin (demoHost ''2.3.1'') demoConfig ''parcel-transformer-js''))"
    by (metis prod.collapse)
  with truthy_demoPlugin first show ?thesis
    using loadPlugin_cached_truthy [of "demoHost ''2.3.1''" demoConfig "''parcel-transformer-js''"
        demoPlugin "snd (loadPlugin (demoHost ''2.3.1'') demoConfig ''parcel-transformer-js'')"]
    by simp
qed

text \<open>
  C8 as stated fails for a first call that succeeds with a falsy value: the module of
  \<open>parcel-plugin-bare\<close> has no \<open>CONFIG\<close> export, the first call returns \<open>undefined\<close> without an
  error, and the second call resolves, checks the version and requires the module again.
\<close>

theorem loadPlugin_falsy_not_cached_counterexample:
  "fst (loadPlugin (demoHost ''2.3.1'') demoConfig ''parcel-plugin-bare'') = Inr JUndefined
   \<and> effects (snd (loadPlugin (demoHost ''2.3.1'') demoConfig ''parcel-plugin-bare'')) =
       [ResolveCall ''parcel-plugin-bare'' ''/app/.parcelrc'',
        SatisfiesCall ''2.3.1'' ''^2.0.0'',
        RequireCall ''/app/node_modules/parcel-plugin-bare/index.js'']
   \<and> effects (snd (loadPlugin (demoHost ''2.3.1'')
         (snd (loadPlugin (demoHost ''2.3.1'') demoConfig ''parcel-plugin-bare''))
         ''parcel-plugin-bare'')) =
       [ResolveCall ''parcel-plugin-bare'' ''/app/.parcelrc'',
        SatisfiesCall ''2.3.1'' ''^2.0.0'',
        RequireCall ''/app/node_modules/parcel-plugin-bare/index.js'',
        ResolveCall ''parcel-plugin-bare'' ''/app/.parcelrc'',
        SatisfiesCall ''2.3.1'' ''^2.0.0'',
        RequireCall ''/app/node_modules/parcel-plugin-bare/index.js'']"
proof -
  have one: "loadPlugin (demoHost ''2.3.1'') demoConfig ''parcel-plugin-bare'' =
     (Inr JUndefined, storeResult ''parcel-plugin-bare'' (Inr JUndefined)
        [ResolveCall ''parcel-plugin-bare'' ''/app/.parcelrc'',
         SatisfiesCall ''2.3.1'' ''^2.0.0'',
         RequireCall ''/app/node_modules/parcel-plugin-bare/index.js''] demoConfig)"
    by (simp add: loadPlugin_miss cacheGet_None demo_cache_empty demo_outcome_bare demo_configPath)
  have two: "loadPlugin (demoHost ''2.3.1'')
       (storeResult ''parcel-plugin-bare'' (Inr JUndefined) evs demoConfig) ''parcel-plugin-bare'' =
     (Inr JUndefined, storeResult ''parcel-plugin-bare'' (Inr JUndefined)
        [ResolveCall ''parcel-plugin-bare'' ''/app/.parcelrc'',
         SatisfiesCall ''2.3.1'' ''^2.0.0'',
         RequireCall ''/app/node_modules/parcel-plugin-bare/index.js'']
        (storeResult ''parcel-plugin-bare'' (Inr JUndefined) evs demoConfig))" for evs
    using demo_outcome_bare
    by (simp add: loadPlugin_miss cacheGet_def demo_configPath)
  show ?thesis by (simp add: one two demo_effects)
qed


lemma loadPlugin_Inl:
  assumes "loadPlugin h c n = (Inl e, c1)"
  shows "\<not> truthy (cacheGet (pluginCache c) n) \<and> pluginCache c1 = pluginCache c
         \<and> configPath c1 = configPath c"
proof (cases "truthy (cacheGet (pluginCache c) n)")
  case True
  with assms show ?thesis by (simp add: loadPlugin_hit)
next
  case False
  with assms show ?thesis by (auto simp: loadPlugin_miss split: prod.splits)
qed

lemma loadPlugin_miss_effects:
  "\<not> truthy (cacheGet (pluginCache c) n) \<Longrightarrow>
     effects (snd (loadPlugin h c n)) =
       effects c @ ResolveCall n (configPath c) # snd (resumeOutcome h (configPath c) n)"
  by (simp add: loadPlugin_miss split: prod.splits)

text \<open>
  C9. When \<open>loadPlugin\<close> fails, whatever the cause, the cache is exactly as before the call,
  and the next call for that name is not answered from the cache: it calls
  \<open>localRequire.resolve\<close> again. A failed resolution is such a failure (a version mismatch
  is one by C2).
\<close>

theorem loadPlugin_failure_keeps_cache:
  "(loadPlugin h c n = (Inl e, c1) \<longrightarrow>
      pluginCache c1 = pluginCache c
      \<and> fst (loadPlugin_begin c1 n) = AwaitingResolve n
      \<and> (\<exists>rest. effects (snd (loadPlugin h c1 n)) = effects c1 @ ResolveCall n (configPath c1) # rest))
   \<and> (\<not> truthy (cacheGet (pluginCache c) n) \<and> localRequire_resolve h n (configPath c) = Inl e
        \<longrightarrow> fst (loadPlugin h c n) = Inl e)"
proof -
  have keeps: "pluginCache c1 = pluginCache c
      \<and> fst (loadPlugin_begin c1 n) = AwaitingResolve n
      \<and> (\<exists>rest. effects (snd (loadPlugin h c1 n)) = effects c1 @ ResolveCall n (configPath c1) # rest)"
    if a: "loadPlugin h c n = (Inl e, c1)"
  proof -
    from loadPlugin_Inl [OF a] have miss: "\<not> truthy (cacheGet (pluginCache c1) n)"
      and same: "pluginCache c1 = pluginCache c" by simp_all
    from miss have "fst (loadPlugin_begin c1 n) = AwaitingResolve n"
      by (simp add: loadPlugin_begin_def)
    with same loadPlugin_miss_effects [OF miss, of h] show ?thesis by blast
  qed
  have fails: "fst (loadPlugin h c n) = Inl e"
    if "\<not> truthy (cacheGet (pluginCache c) n) \<and> localRequire_resolve h n (configPath c) = Inl e"
    using that by (simp add: loadPlugin_miss resumeOutcome_def)
  from keeps fails show ?thesis by blast
qed

lemma demo_outcome_js_old:
  "resumeOutcome (demoHost ''1.9.0'') base ''parcel-transformer-js'' =
     (Inl (Error (incompatibleMessage ''parcel-transformer-js'' ''^2.0.0'' ''1.9.0'')),
      [SatisfiesCall ''1.9.0'' ''^2.0.0''])"
  by (simp add: resumeOutcome_def demoHost_def demoResolve_def parcelVersionRange_def semver_demo)

lemma demo_outcome_missing:
  "resumeOutcome (demoHost v) base ''parcel-plugin-missing'' =
     (Inl (Error ''Cannot find module parcel-plugin-missing''), [])"
  by (simp add: resumeOutcome_def demoHost_def demoResolve_def)

theorem loadPlugin_failure_keeps_cache_witness:
  "fst (loadPlugin (demoHost ''1.9.0'') demoConfig ''parcel-transformer-js'')
     = Inl (Error (incompatibleMessage ''parcel-transformer-js'' ''^2.0.0'' ''1.9.0''))
   \<and> pluginCache (snd (loadPlugin (demoHost ''1.9.0'') demoConfig ''parcel-transformer-js''))
       = pluginCache demoConfig
   \<and> fst (loadPlugin (demoHost ''1.9.0'') demoConfig ''parcel-plugin-missing'')
       = Inl (Error ''Cannot find module parcel-plugin-missing'')
   \<and> pluginCache (snd (loadPlugin (demoHost ''1.9.0'') demoConfig ''parcel-plugin-missing''))
       = pluginCache demoConfig
   \<and> fst (loadPlugin_begin (snd (loadPlugin (demoHost ''1.9.0'') demoConfig ''parcel-plugin-missing''))
        ''parcel-plugin-missing'') = AwaitingResolve ''parcel-plugin-missing''"
proof -
  let ?H = "demoHost ''1.9.0''"
  have f1: "fst (loadPlugin ?H demoConfig ''parcel-transformer-js'')
     = Inl (Error (incompatibleMessage ''parcel-transformer-js'' ''^2.0.0'' ''1.9.0''))"
    by (simp add: loadPlugin_miss cacheGet_None demo_cache_empty demo_outcome_js_old)
  have f2: "fst (loadPlugin ?H demoConfig ''parcel-plugin-missing'')
       = Inl (Error ''Cannot find module parcel-plugin-missing'')"
    by (simp add: loadPlugin_miss cacheGet_None demo_cache_empty demo_outcome_missing)
  from f1 have e1: "loadPlugin ?H demoConfig ''parcel-transformer-js''
     = (Inl (Error (incompatibleMessage ''parcel-transformer-js'' ''^2.0.0'' ''1.9.0'')),
        snd (loadPlugin ?H demoConfig ''parcel-transformer-js''))"
    by (metis prod.collapse)
  from f2 have e2: "loadPlugin ?H demoConfig ''parcel-plugin-missing''
     = (Inl (Error ''Cannot find module parcel-plugin-missing''),
        snd (loadPlugin ?H demoConfig ''parcel-plugin-missing''))"
    by (metis prod.collapse)
  show ?thesis
    using loadPlugin_failure_keeps_cache [of ?H demoConfig "''parcel-transformer-js''"
        "Error (incompatibleMessage ''parcel-transformer-js'' ''^2.0.0'' ''1.9.0'')"
        "snd (loadPlugin ?H demoConfig ''parcel-transformer-js'')"]
      loadPlugin_failure_keeps_cache [of ?H demoConfig "''parcel-plugin-missing''"
        "Error ''Cannot find module parcel-plugin-missing''"
        "snd (loadPlugin ?H demoConfig ''parcel-plugin-missing'')"]
      e1 e2 f1 f2
    by simp
qed

text \<open>Repeated calls for a name whose cached value is falsy.\<close>

lemma loadPluginTimes_falsy:
  assumes o: "resumeOutcome h path n = (Inr v, evs)" and v: "\<not> truthy v"
  shows "configPath c = path \<Longrightarrow> pluginCache c n = Some v \<Longrightarrow>
     pluginCache (loadPluginTimes h c n k) = pluginCache c
     \<and> configPath (loadPluginTimes h c n k) = path
     \<and> effects (loadPluginTimes h c n k) = effects c @ concat (replicate k (ResolveCall n path # evs))
     \<and> fst (loadPlugin h (loadPluginTimes h c n k) n) = Inr v"
proof (induction k arbitrary: c)
  case 0
  then have "\<not> truthy (cacheGet (pluginCache c) n)" using v by (simp add: cacheGet_def)
  with 0 o show ?case by (simp add: loadPlugin_miss)
next
  case (Suc k)
  from Suc.prems have miss: "\<not> truthy (cacheGet (pluginCache c) n)" using v by (simp add: cacheGet_def)
  let ?c = "snd (loadPlugin h c n)"
  from miss o Suc.prems have s: "?c = storeResult n (Inr v) (ResolveCall n path # evs) c"
    by (simp add: loadPlugin_miss)
  from Suc.prems have same: "pluginCache ?c = pluginCache c"
    by (simp add: s map_upd_triv)
  have eff: "effects ?c = effects c @ ResolveCall n path # evs"
    by (simp add: s)
  have "configPath ?c = path" "pluginCache ?c n = Some v"
    using Suc.prems by (simp_all add: s)
  from Suc.IH [OF this] have ih:
    "pluginCache (loadPluginTimes h ?c n k) = pluginCache ?c
     \<and> configPath (loadPluginTimes h ?c n k) = path
     \<and> effects (loadPluginTimes h ?c n k) = effects ?c @ concat (replicate k (ResolveCall n path # evs))
     \<and> fst (loadPlugin h (loadPluginTimes h ?c n k) n) = Inr v" .
  show ?case unfolding loadPluginTimes.simps using ih same eff by simp
qed

text \<open>
  C10. When a call of \<open>loadPlugin\<close> returns a falsy value \<open>v\<close> (the \<open>CONFIG\<close> export of the
  module, after the default export is unwrapped), \<open>v\<close> is stored in the cache under the
  name, and yet every later call for the name misses the cache: each of them repeats the
  effects of the first call, which start with the resolution and hold the version check
  when the package declares a range, returns \<open>v\<close> again and leaves the cache as it is.
\<close>

theorem loadPlugin_falsy_plugin_reloaded:
  "loadPlugin h c n = (Inr v, c1) \<and> \<not> truthy v \<longrightarrow>
     pluginCache c1 n = Some v
     \<and> (\<exists>evs. effects c1 = effects c @ ResolveCall n (configPath c) # evs
          \<and> (\<forall>k. effects (loadPluginTimes h c1 n k) =
                    effects c1 @ concat (replicate k (ResolveCall n (configPath c) # evs))
                  \<and> fst (loadPlugin h (loadPluginTimes h c1 n k) n) = Inr v
                  \<and> pluginCache (loadPluginTimes h c1 n k) = pluginCache c1)
          \<and> (\<forall>f pkg e rng. localRequire_resolve h n (configPath c) = Inr (f, pkg)
                \<and> engines pkg = Some e \<and> parcel e = Some rng \<and> rng \<noteq> []
                \<longrightarrow> SatisfiesCall (PARCEL_VERSION h) rng \<in> set evs))"
proof
  assume a: "loadPlugin h c n = (Inr v, c1) \<and> \<not> truthy v"
  have miss: "\<not> truthy (cacheGet (pluginCache c) n)"
  proof
    assume "truthy (cacheGet (pluginCache c) n)"
    with a show False by (auto simp: loadPlugin_hit)
  qed
  obtain r evs where o: "resumeOutcome h (configPath c) n = (r, evs)"
    by (cases "resumeOutcome h (configPath c) n")
  from a miss o have r: "r = Inr v" and c1: "c1 = storeResult n (Inr v) (ResolveCall n (configPath c) # evs) c"
    by (auto simp: loadPlugin_miss)
  from c1 have stored: "pluginCache c1 n = Some v" and path: "configPath c1 = configPath c"
    and eff: "effects c1 = effects c @ ResolveCall n (configPath c) # evs"
    by simp_all
  from o r have o': "resumeOutcome h (configPath c) n = (Inr v, evs)" by simp
  have times: "effects (loadPluginTimes h c1 n k) =
                    effects c1 @ concat (replicate k (ResolveCall n (configPath c) # evs))
                  \<and> fst (loadPlugin h (loadPluginTimes h c1 n k) n) = Inr v
                  \<and> pluginCache (loadPluginTimes h c1 n k) = pluginCache c1" for k
    using loadPluginTimes_falsy [OF o' _ path stored, of k] a by simp
  have check: "SatisfiesCall (PARCEL_VERSION h) rng \<in> set evs"
    if "localRequire_resolve h n (configPath c) = Inr (f, pkg)
                \<and> engines pkg = Some e \<and> parcel e = Some rng \<and> rng \<noteq> []" for f pkg e rng
    using that o' by (auto simp: resumeOutcome_def parcelVersionRange_def split: if_splits)
  from stored eff times check
  show "pluginCache c1 n = Some v
     \<and> (\<exists>evs. effects c1 = effects c @ ResolveCall n (configPath c) # evs
          \<and> (\<forall>k. effects (loadPluginTimes h c1 n k) =
                    effects c1 @ concat (replicate k (ResolveCall n (configPath c) # evs))
                  \<and> fst (loadPlugin h (loadPluginTimes h c1 n k) n) = Inr v
                  \<and> pluginCache (loadPluginTimes h c1 n k) = pluginCache c1)
          \<and> (\<forall>f pkg e rng. localRequire_resolve h n (configPath c) = Inr (f, pkg)
                \<and> engines pkg = Some e \<and> parcel e = Some rng \<and> rng \<noteq> []
                \<longrightarrow> SatisfiesCall (PARCEL_VERSION h) rng \<in> set evs))"
    by blast
qed


theorem loadPlugin_falsy_plugin_reloaded_witness:
  "fst (loadPlugin (demoHost ''2.3.1'') demoConfig ''parcel-plugin-bare'') = Inr JUndefined
   \<and> \<not> truthy JUndefined
   \<and> pluginCache (snd (loadPlugin (demoHost ''2.3.1'') demoConfig ''parcel-plugin-bare''))
        ''parcel-plugin-bare'' = Some JUndefined
   \<and> effects (loadPluginTimes (demoHost ''2.3.1'')
         (snd (loadPlugin (demoHost ''2.3.1'') demoConfig ''parcel-plugin-bare''))
         ''parcel-plugin-bare'' 2) =
       [ResolveCall ''parcel-plugin-bare'' ''/app/.parcelrc'',
        SatisfiesCall ''2.3.1'' ''^2.0.0'',
        RequireCall ''/app/node_modules/parcel-plugin-bare/index.js'',
        ResolveCall ''parcel-plugin-bare'' ''/app/.parcelrc'',
        SatisfiesCall ''2.3.1'' ''^2.0.0'',
        RequireCall ''/app/node_modules/parcel-plugin-bare/index.js'',
        ResolveCall ''parcel-plugin-bare'' ''/app/.parcelrc'',
        SatisfiesCall ''2.3.1'' ''^2.0.0'',
        RequireCall ''/app/node_modules/parcel-plugin-bare/index.js'']"
proof -
  let ?H = "demoHost ''2.3.1''"
  let ?n = "''parcel-plugin-bare''"
  let ?c1 = "snd (loadPlugin ?H demoConfig ?n)"
  have one: "loadPlugin ?H demoConfig ?n =
     (Inr JUndefined, storeResult ?n (Inr JUndefined)
        [ResolveCall ?n ''/app/.parcelrc'', SatisfiesCall ''2.3.1'' ''^2.0.0'',
         RequireCall ''/app/node_modules/parcel-plugin-bare/index.js''] demoConfig)"
    by (simp add: loadPlugin_miss cacheGet_None demo_cache_empty demo_outcome_bare demo_configPath)
  then have pair: "loadPlugin ?H demoConfig ?n = (Inr JUndefined, ?c1) \<and> \<not> truthy JUndefined"
    by simp
  have eff1: "effects ?c1 = [ResolveCall ?n ''/app/.parcelrc'', SatisfiesCall ''2.3.1'' ''^2.0.0'',
         RequireCall ''/app/node_modules/parcel-plugin-bare/index.js'']"
    by (simp add: one demo_effects)
  from loadPlugin_falsy_plugin_reloaded [of ?H demoConfig ?n JUndefined ?c1] pair
  have stored: "pluginCache ?c1 ?n = Some JUndefined"
    and "\<exists>evs. effects ?c1 = effects demoConfig @ ResolveCall ?n (configPath demoConfig) # evs
          \<and> (\<forall>k. effects (loadPluginTimes ?H ?c1 ?n k) =
                    effects ?c1 @ concat (replicate k (ResolveCall ?n (configPath demoConfig) # evs)))"
    by blast+
  then obtain evs where e: "effects ?c1 = effects demoConfig @ ResolveCall ?n (configPath demoConfig) # evs"
    and t: "effects (loadPluginTimes ?H ?c1 ?n 2) =
              effects ?c1 @ concat (replicate 2 (ResolveCall ?n (configPath demoConfig) # evs))"
    by blast
  from e have evs: "evs = [SatisfiesCall ''2.3.1'' ''^2.0.0'',
         RequireCall ''/app/node_modules/parcel-plugin-bare/index.js'']"
    by (simp add: eff1 demo_effects)
  have twice: "effects (loadPluginTimes ?H ?c1 ?n 2) =
       [ResolveCall ?n ''/app/.parcelrc'', SatisfiesCall ''2.3.1'' ''^2.0.0'',
        RequireCall ''/app/node_modules/parcel-plugin-bare/index.js'',
        ResolveCall ?n ''/app/.parcelrc'', SatisfiesCall ''2.3.1'' ''^2.0.0'',
        RequireCall ''/app/node_modules/parcel-plugin-bare/index.js'',
        ResolveCall ?n ''/app/.parcelrc'', SatisfiesCall ''2.3.1'' ''^2.0.0'',
        RequireCall ''/app/node_modules/parcel-plugin-bare/index.js'']"
    unfolding t evs eff1 by (simp add: demo_configPath numeral_2_eq_2)
  from one stored twice show ?thesis by simp
qed

section \<open>The accessors of the phases\<close>

lemma resumeAt_Nil: "resumeAt h i ([], c, rej) = ([], c, rej)"
  by (simp add: resumeAt_def)

lemma fold_resumeAt_Nil: "fold (resumeAt h) sched ([], c, rej) = ([], c, rej)"
  by (induction sched) (simp_all add: resumeAt_Nil)

lemma loadPlugins_Nil: "loadPlugins h c [] sched = (Inr [], c)"
  by (simp add: loadPlugins_def fold_resumeAt_Nil)

lemma collectMatches_none:
  "\<forall>kv\<in>set m. \<not> isGlobMatch h F (fst kv) \<Longrightarrow> collectMatches h F (forIn m) = []"
  by (simp add: collectMatches_filter filter_empty_conv set_forIn)

lemma matchGlobMapPipelines_none:
  "\<forall>kv\<in>set m. \<not> isGlobMatch h F (fst kv) \<Longrightarrow> matchGlobMapPipelines h F m = Inr []"
  by (simp add: matchGlobMapPipelines_def collectMatches_none)

lemma matchGlobMap_none:
  "\<forall>kv\<in>set m. \<not> isGlobMatch h F (fst kv) \<Longrightarrow> matchGlobMap h F m = None"
  by (simp add: matchGlobMap_def matchGlobMap_loop_None set_forIn)

text \<open>
  C6. \<open>getResolvers\<close> fails when the list of resolvers is empty, \<open>getBundler\<close> when no bundler
  is configured (the constructor leaves the empty name), \<open>getNamers\<close> when the list of
  namers is empty, \<open>getTransformers\<close> and \<open>getPackager\<close> when no pattern matches the path;
  the message names the phase and, for the last two, the path. \<open>getRuntimes\<close> for a context
  without an entry and \<open>getOptimizers\<close> for a path that no pattern matches return the empty
  sequence. Nothing is loaded and the instance is unchanged in all seven cases. An
  instance built from a configuration record that lacks \<open>resolvers\<close>, \<open>bundler\<close>, \<open>namers\<close>
  or \<open>packagers\<close> is in the failing case of that phase.
\<close>

theorem empty_phase_policy:
  "(resolvers c = [] \<longrightarrow>
      getResolvers h c sched = (Inl (Error ''No resolver plugins specified in .parcelrc config''), c))
   \<and> (bundler c = [] \<longrightarrow>
      getBundler h c = (Inl (Error ''No bundler specified in .parcelrc config''), c))
   \<and> (namers c = [] \<longrightarrow>
      getNamers h c sched = (Inl (Error ''No namer plugins specified in .parcelrc config''), c))
   \<and> ((\<forall>kv\<in>set (transforms c). \<not> isGlobMatch h F (fst kv)) \<longrightarrow>
      getTransformers h c F sched = (Inl (Error (''No transformers found for '' @ quoted F @ ''.'')), c))
   \<and> ((\<forall>kv\<in>set (packagers c). \<not> isGlobMatch h F (fst kv)) \<longrightarrow>
      getPackager h c F = (Inl (Error (''No packager found for '' @ quoted F @ ''.'')), c))
   \<and> (runtimes c ctx = None \<longrightarrow> getRuntimes h c ctx sched = (Inr [], c))
   \<and> ((\<forall>kv\<in>set (optimizers c). \<not> isGlobMatch h F (fst kv)) \<longrightarrow>
      getOptimizers h c F sched = (Inr [], c))
   \<and> (cfg_resolvers cfg = None \<longrightarrow>
      fst (getResolvers h (newConfig cfg p) sched)
        = Inl (Error ''No resolver plugins specified in .parcelrc config''))
   \<and> (cfg_bundler cfg = None \<longrightarrow>
      fst (getBundler h (newConfig cfg p)) = Inl (Error ''No bundler specified in .parcelrc config''))
   \<and> (cfg_namers cfg = None \<longrightarrow>
      fst (getNamers h (newConfig cfg p) sched)
        = Inl (Error ''No namer plugins specified in .parcelrc config''))
   \<and> (cfg_packagers cfg = None \<longrightarrow>
      fst (getPackager h (newConfig cfg p) F)
        = Inl (Error (''No packager found for '' @ quoted F @ ''.'')))"
proof -
  have r: "resolvers c = [] \<longrightarrow>
      getResolvers h c sched = (Inl (Error ''No resolver plugins specified in .parcelrc config''), c)"
    by (simp add: getResolvers_def)
  have b: "bundler c = [] \<longrightarrow>
      getBundler h c = (Inl (Error ''No bundler specified in .parcelrc config''), c)"
    by (simp add: getBundler_def)
  have n: "namers c = [] \<longrightarrow>
      getNamers h c sched = (Inl (Error ''No namer plugins specified in .parcelrc config''), c)"
    by (simp add: getNamers_def)
  have t: "(\<forall>kv\<in>set (transforms c). \<not> isGlobMatch h F (fst kv)) \<longrightarrow>
      getTransformers h c F sched = (Inl (Error (''No transformers found for '' @ quoted F @ ''.'')), c)"
    by (simp add: getTransformers_def matchGlobMapPipelines_none)
  have p: "(\<forall>kv\<in>set (packagers c). \<not> isGlobMatch h F (fst kv)) \<longrightarrow>
      getPackager h c F = (Inl (Error (''No packager found for '' @ quoted F @ ''.'')), c)"
    by (simp add: getPackager_def matchGlobMap_none)
  have u: "runtimes c ctx = None \<longrightarrow> getRuntimes h c ctx sched = (Inr [], c)"
    by (simp add: getRuntimes_def)
  have opt: "(\<forall>kv\<in>set (optimizers c). \<not> isGlobMatch h F (fst kv)) \<longrightarrow>
      getOptimizers h c F sched = (Inr [], c)"
    by (simp add: getOptimizers_def matchGlobMapPipelines_none loadPlugins_Nil)
  have r0: "cfg_resolvers cfg = None \<longrightarrow>
      fst (getResolvers h (newConfig cfg p) sched)
        = Inl (Error ''No resolver plugins specified in .parcelrc config'')"
    by (simp add: getResolvers_def newConfig_def orElse_def)
  have b0: "cfg_bundler cfg = None \<longrightarrow>
      fst (getBundler h (newConfig cfg p)) = Inl (Error ''No bundler specified in .parcelrc config'')"
    by (simp add: getBundler_def newConfig_def orElse_def)
  have n0: "cfg_namers cfg = None \<longrightarrow>
      fst (getNamers h (newConfig cfg p) sched)
        = Inl (Error ''No namer plugins specified in .parcelrc config'')"
    by (simp add: getNamers_def newConfig_def orElse_def)
  have p0: "cfg_packagers cfg = None \<longrightarrow>
      fst (getPackager h (newConfig cfg p) F)
        = Inl (Error (''No packager found for '' @ quoted F @ ''.''))"
    by (simp add: getPackager_def newConfig_def orElse_def matchGlobMap_none)
  from r b n t p u opt r0 b0 n0 p0 show ?thesis by blast
qed

lemma css_fields:
  "resolvers cssConfig = []" "bundler cssConfig = []" "namers cssConfig = []"
  "transforms cssConfig = [(''*.css'', [''parcel-transformer-css''])]"
  "packagers cssConfig = [(''*.css'', ''parcel-packager-css'')]"
  "optimizers cssConfig = [(''*.css'', [''parcel-optimizer-css''])]"
  "runtimes cssConfig Browser = None"
  by (simp_all add: cssConfig_def newConfig_def emptyParcelConfig_def orElse_def)

theorem empty_phase_policy_witness:
  "getResolvers (demoHost ''2.3.1'') cssConfig []
     = (Inl (Error ''No resolver plugins specified in .parcelrc config''), cssConfig)
   \<and> getBundler (demoHost ''2.3.1'') cssConfig
     = (Inl (Error ''No bundler specified in .parcelrc config''), cssConfig)
   \<and> getNamers (demoHost ''2.3.1'') cssConfig []
     = (Inl (Error ''No namer plugins specified in .parcelrc config''), cssConfig)
   \<and> getTransformers (demoHost ''2.3.1'') cssConfig ''src/a.js'' []
     = (Inl (Error (''No transformers found for '' @ quoted ''src/a.js'' @ ''.'')), cssConfig)
   \<and> getPackager (demoHost ''2.3.1'') cssConfig ''src/a.js''
     = (Inl (Error (''No packager found for '' @ quoted ''src/a.js'' @ ''.'')), cssConfig)
   \<and> getRuntimes (demoHost ''2.3.1'') cssConfig Browser [] = (Inr [], cssConfig)
   \<and> getOptimizers (demoHost ''2.3.1'') cssConfig ''src/a.js'' [] = (Inr [], cssConfig)"
proof -
  have "\<not> isGlobMatch (demoHost ''2.3.1'') ''src/a.js'' ''*.css''"
    by (simp add: isGlobMatch_def demoHost_def posixBasename_def)
  then show ?thesis
    using empty_phase_policy [where c = cssConfig and h = "demoHost ''2.3.1''" and sched = "[]"
        and F = "''src/a.js''" and ctx = Browser and cfg = emptyParcelConfig and p = "''/app/.parcelrc''"]
    by (simp add: css_fields)
qed

section \<open>Overlapping loads\<close>

lemma beginAll_miss:
  "\<not> truthy (cacheGet (pluginCache c) n) \<Longrightarrow>
     beginAll c (replicate k n) =
       (replicate k (AwaitingResolve n),
        c\<lparr>effects := effects c @ replicate k (ResolveCall n (configPath c))\<rparr>)"
proof (induction k arbitrary: c)
  case 0
  show ?case by simp
next
  case (Suc k)
  let ?c = "logEffect (ResolveCall n (configPath c)) c"
  from Suc.prems have b: "loadPlugin_begin c n = (AwaitingResolve n, ?c)"
    by (simp add: loadPlugin_begin_def)
  from Suc.prems have "\<not> truthy (cacheGet (pluginCache ?c) n)" by (simp add: logEffect_def)
  from Suc.IH [OF this] show ?case
    by (simp add: b logEffect_def replicate_append_same)
qed

lemma beginAll_hit:
  "truthy (cacheGet (pluginCache c) n) \<Longrightarrow>
     beginAll c (replicate k n) = (replicate k (Settled (Inr (cacheGet (pluginCache c) n))), c)"
  by (induction k) (simp_all add: loadPlugin_begin_def)

text \<open>One step of the schedule.\<close>

lemma resumeAt_settled:
  "i < length ts \<Longrightarrow> ts ! i = Settled r \<Longrightarrow> resumeAt h i (ts, c, rej) = (ts, c, rej)"
  by (simp add: resumeAt_def)

lemma resumeAt_out: "\<not> i < length ts \<Longrightarrow> resumeAt h i (ts, c, rej) = (ts, c, rej)"
  by (simp add: resumeAt_def)

lemma resumeAt_awaiting:
  "i < length ts \<Longrightarrow> ts ! i = AwaitingResolve n \<Longrightarrow>
     \<exists>rej'. resumeAt h i (ts, c, rej) =
       (ts[i := Settled (fst (resumeOutcome h (configPath c) n))],
        storeResult n (fst (resumeOutcome h (configPath c) n)) (snd (resumeOutcome h (configPath c) n)) c,
        rej')"
  by (simp add: resumeAt_def loadPlugin_resume_eq split: prod.splits)

lemma count_list_update_away:
  "i < length xs \<Longrightarrow> xs ! i = a \<Longrightarrow> b \<noteq> a \<Longrightarrow>
     Suc (count_list (xs[i := b]) a) = count_list xs a"
proof (induction xs arbitrary: i)
  case Nil
  then show ?case by simp
next
  case (Cons x xs)
  then show ?case by (cases i) auto
qed

lemma count_list_update_other:
  "xs ! i \<noteq> a \<Longrightarrow> b \<noteq> a \<Longrightarrow> count_list (xs[i := b]) a = count_list xs a"
proof (induction xs arbitrary: i)
  case Nil
  then show ?case by simp
next
  case (Cons x xs)
  then show ?case by (cases i) auto
qed

text \<open>What a schedule keeps.\<close>

lemma callsFor_update: "callsFor n ts \<Longrightarrow> callsFor n (ts[i := Settled r])"
  unfolding callsFor_def using set_update_subset_insert [of ts i "Settled r"] by auto

lemma callsFor_nth:
  "callsFor n ts \<Longrightarrow> i < length ts \<Longrightarrow> ts ! i = AwaitingResolve n \<or> (\<exists>r. ts ! i = Settled r)"
  by (simp add: callsFor_def)

lemma resumeAt_invariant:
  assumes "callsFor n ts" and "count_list (snd (resumeOutcome h (configPath c) n)) ev = d"
    and "d \<le> 1"
    and "resumeAt h i (ts, c, rej) = (ts', c', rej')"
  shows "callsFor n ts' \<and> length ts' = length ts \<and> configPath c' = configPath c
         \<and> count_list (effects c') ev + d * count_list ts' (AwaitingResolve n)
             = count_list (effects c) ev + d * count_list ts (AwaitingResolve n)"
proof (cases "i < length ts")
  case False
  with assms show ?thesis by (simp add: resumeAt_out)
next
  case True
  from callsFor_nth [OF assms(1) True] show ?thesis
  proof
    assume a: "ts ! i = AwaitingResolve n"
    from resumeAt_awaiting [OF True a, of h c rej] assms(4)
    have ts': "ts' = ts[i := Settled (fst (resumeOutcome h (configPath c) n))]"
      and c': "c' = storeResult n (fst (resumeOutcome h (configPath c) n))
                 (snd (resumeOutcome h (configPath c) n)) c"
      by auto
    have "Suc (count_list ts' (AwaitingResolve n)) = count_list ts (AwaitingResolve n)"
      unfolding ts' by (rule count_list_update_away [OF True a]) simp
    then have "count_list ts (AwaitingResolve n) = Suc (count_list ts' (AwaitingResolve n))"
      by simp
    with assms(1,2) show ?thesis
      by (simp add: ts' c' callsFor_update)
  next
    assume "\<exists>r. ts ! i = Settled r"
    then obtain r where "ts ! i = Settled r" ..
    with True assms show ?thesis by (simp add: resumeAt_settled)
  qed
qed

lemma fold_resumeAt_invariant:
  assumes "count_list (snd (resumeOutcome h p n)) ev = d" and "d \<le> 1"
  shows "callsFor n ts \<Longrightarrow> configPath c = p \<Longrightarrow> fold (resumeAt h) sched (ts, c, rej) = (ts', c', rej') \<Longrightarrow>
     callsFor n ts' \<and> length ts' = length ts \<and> configPath c' = p
     \<and> count_list (effects c') ev + d * count_list ts' (AwaitingResolve n)
         = count_list (effects c) ev + d * count_list ts (AwaitingResolve n)"
proof (induction sched arbitrary: ts c rej)
  case Nil
  then show ?case by simp
next
  case (Cons i sched)
  obtain ts1 c1 rej1 where s: "resumeAt h i (ts, c, rej) = (ts1, c1, rej1)"
    by (cases "resumeAt h i (ts, c, rej)")
  from Cons.prems(2) assms(1) have "count_list (snd (resumeOutcome h (configPath c) n)) ev = d"
    by simp
  from resumeAt_invariant [OF Cons.prems(1) this assms(2) s]
  have inv: "callsFor n ts1" "length ts1 = length ts" "configPath c1 = configPath c"
    "count_list (effects c1) ev + d * count_list ts1 (AwaitingResolve n)
       = count_list (effects c) ev + d * count_list ts (AwaitingResolve n)"
    by simp_all
  from Cons.prems(3) s have "fold (resumeAt h) sched (ts1, c1, rej1) = (ts', c', rej')" by simp
  from Cons.IH [OF inv(1) _ this] inv Cons.prems(2) show ?case by simp
qed

text \<open>Every call that the schedule names has continued.\<close>

lemma resumeAt_keeps_settled:
  "resumeAt h i (ts, c, rej) = (ts', c', rej') \<Longrightarrow> j < length ts \<Longrightarrow> ts ! j = Settled r
     \<Longrightarrow> \<exists>r'. ts' ! j = Settled r'"
  by (cases "i = j") (auto simp: resumeAt_def split: if_splits plugin_call.splits prod.splits)

lemma resumeAt_settles:
  "resumeAt h i (ts, c, rej) = (ts', c', rej') \<Longrightarrow> i < length ts \<Longrightarrow> \<exists>r'. ts' ! i = Settled r'"
  by (auto simp: resumeAt_def split: if_splits plugin_call.splits prod.splits)

lemma resumeAt_length:
  "resumeAt h i (ts, c, rej) = (ts', c', rej') \<Longrightarrow> length ts' = length ts"
  by (auto simp: resumeAt_def split: if_splits plugin_call.splits prod.splits)

lemma fold_resumeAt_settles:
  "fold (resumeAt h) sched (ts, c, rej) = (ts', c', rej') \<Longrightarrow> j < length ts
   \<Longrightarrow> j \<in> set sched \<or> (\<exists>r. ts ! j = Settled r) \<Longrightarrow> \<exists>r'. ts' ! j = Settled r'"
proof (induction sched arbitrary: ts c rej)
  case Nil
  then show ?case by simp
next
  case (Cons i sched)
  obtain ts1 c1 rej1 where s: "resumeAt h i (ts, c, rej) = (ts1, c1, rej1)"
    by (cases "resumeAt h i (ts, c, rej)")
  from Cons.prems(1) s have f: "fold (resumeAt h) sched (ts1, c1, rej1) = (ts', c', rej')" by simp
  have len: "length ts1 = length ts" using resumeAt_length [OF s] .
  have "j \<in> set sched \<or> (\<exists>r. ts1 ! j = Settled r)"
  proof (cases "\<exists>r. ts ! j = Settled r")
    case True
    then show ?thesis using resumeAt_keeps_settled [OF s Cons.prems(2)] by blast
  next
    case False
    with Cons.prems(3) have "j = i \<or> j \<in> set sched" by auto
    then show ?thesis using resumeAt_settles [OF s] Cons.prems(2) by blast
  qed
  from Cons.IH [OF f _ this] len Cons.prems(2) show ?case by simp
qed

lemma fold_resumeAt_length:
  "fold (resumeAt h) sched (ts, c, rej) = (ts', c', rej') \<Longrightarrow> length ts' = length ts"
proof (induction sched arbitrary: ts c rej)
  case Nil
  then show ?case by simp
next
  case (Cons i sched)
  obtain ts1 c1 rej1 where s: "resumeAt h i (ts, c, rej) = (ts1, c1, rej1)"
    by (cases "resumeAt h i (ts, c, rej)")
  from Cons.prems s have "fold (resumeAt h) sched (ts1, c1, rej1) = (ts', c', rej')" by simp
  from Cons.IH [OF this] resumeAt_length [OF s] show ?case by simp
qed

lemma fold_resumeAt_all_settled:
  assumes f: "fold (resumeAt h) (sched @ [0..<length ts]) (ts, c, rej) = (ts', c', rej')"
  shows "count_list ts' (AwaitingResolve n) = 0"
proof -
  have len: "length ts' = length ts" using fold_resumeAt_length [OF f] .
  have "AwaitingResolve n \<notin> set ts'"
  proof
    assume "AwaitingResolve n \<in> set ts'"
    then obtain j where j: "j < length ts'" "ts' ! j = AwaitingResolve n"
      by (auto simp: in_set_conv_nth)
    with len have "j < length ts" "j \<in> set (sched @ [0..<length ts])" by simp_all
    with fold_resumeAt_settles [OF f, of j] obtain r' where "ts' ! j = Settled r'" by blast
    with j show False by simp
  qed
  then show ?thesis by (simp add: count_list_0_iff)
qed

lemma fold_resumeAt_idle:
  "\<forall>t\<in>set ts. \<exists>r. t = Settled r \<Longrightarrow> fold (resumeAt h) sched (ts, c, rej) = (ts, c, rej)"
proof (induction sched)
  case Nil
  show ?case by simp
next
  case (Cons i sched)
  have "resumeAt h i (ts, c, rej) = (ts, c, rej)"
  proof (cases "i < length ts")
    case True
    with Cons.prems obtain r where "ts ! i = Settled r" by (meson nth_mem)
    with True show ?thesis by (simp add: resumeAt_settled)
  next
    case False
    then show ?thesis by (simp add: resumeAt_out)
  qed
  with Cons show ?case by simp
qed

lemma loadPlugins_snd:
  "beginAll c ps = (ts0, c0) \<Longrightarrow>
   fold (resumeAt h) (sched @ [0..<length ts0]) (ts0, c0, None) = (ts', c', rej')
   \<Longrightarrow> snd (loadPlugins h c ps sched) = c'"
  by (simp add: loadPlugins_def split: option.splits)

lemma resumeOutcome_no_resolve: "count_list (snd (resumeOutcome h p n)) (ResolveCall a b) = 0"
  by (simp add: resumeOutcome_def split: sum.splits option.splits prod.splits)

lemma resumeOutcome_one_check:
  "localRequire_resolve h n p = Inr (f, pkg) \<Longrightarrow> engines pkg = Some e \<Longrightarrow> parcel e = Some rng
   \<Longrightarrow> rng \<noteq> [] \<Longrightarrow> count_list (snd (resumeOutcome h p n)) (SatisfiesCall (PARCEL_VERSION h) rng) = 1"
  by (simp add: resumeOutcome_def parcelVersionRange_def)

lemma callsFor_replicate: "callsFor n (replicate k (AwaitingResolve n))"
  by (simp add: callsFor_def)

lemma loadPlugins_overlapping_count:
  assumes miss: "\<not> truthy (cacheGet (pluginCache c) n)"
    and d: "count_list (snd (resumeOutcome h (configPath c) n)) ev = d" "d \<le> 1"
  shows "count_list (effects (snd (loadPlugins h c (replicate k n) sched))) ev
           = count_list (effects c) ev + count_list (replicate k (ResolveCall n (configPath c))) ev + d * k"
proof -
  let ?ts0 = "replicate k (AwaitingResolve n)"
  let ?c0 = "c\<lparr>effects := effects c @ replicate k (ResolveCall n (configPath c))\<rparr>"
  have b: "beginAll c (replicate k n) = (?ts0, ?c0)" using beginAll_miss [OF miss] .
  obtain ts' c' rej' where
    f: "fold (resumeAt h) (sched @ [0..<length ?ts0]) (?ts0, ?c0, None) = (ts', c', rej')"
    by (cases "fold (resumeAt h) (sched @ [0..<length ?ts0]) (?ts0, ?c0, None)")
  have s: "snd (loadPlugins h c (replicate k n) sched) = c'" using loadPlugins_snd [OF b f] .
  have "count_list (effects c') ev + d * count_list ts' (AwaitingResolve n)
          = count_list (effects ?c0) ev + d * count_list ?ts0 (AwaitingResolve n)"
    using fold_resumeAt_invariant [OF d(1) d(2) callsFor_replicate _ f] by simp
  moreover have "count_list ts' (AwaitingResolve n) = 0" using fold_resumeAt_all_settled [OF f] .
  moreover have "count_list ?ts0 (AwaitingResolve n) = k" by (induction k) simp_all
  ultimately show ?thesis by (simp add: s)
qed

text \<open>
  C4, as the code has it. Calls of \<open>loadPlugin\<close> for one name whose cached value is absent
  or falsy, started before any of them has continued (as \<open>loadPlugins\<close> starts the calls
  of a pipeline), are not coalesced: each of the \<open>k\<close> calls issues its own resolution, and,
  in whatever order they continue, each runs its own version check when the package
  declares a range. Only when the cache already holds a truthy value for the name do the
  \<open>k\<close> calls return it with no resolution at all.
\<close>

theorem loadPlugins_not_coalesced:
  "(\<not> truthy (cacheGet (pluginCache c) n) \<longrightarrow>
      beginAll c (replicate k n) =
        (replicate k (AwaitingResolve n),
         c\<lparr>effects := effects c @ replicate k (ResolveCall n (configPath c))\<rparr>)
      \<and> count_list (effects (snd (loadPlugins h c (replicate k n) sched))) (ResolveCall n (configPath c))
          = count_list (effects c) (ResolveCall n (configPath c)) + k
      \<and> (\<forall>f pkg e rng. localRequire_resolve h n (configPath c) = Inr (f, pkg)
            \<and> engines pkg = Some e \<and> parcel e = Some rng \<and> rng \<noteq> [] \<longrightarrow>
            count_list (effects (snd (loadPlugins h c (replicate k n) sched)))
                (SatisfiesCall (PARCEL_VERSION h) rng)
              = count_list (effects c) (SatisfiesCall (PARCEL_VERSION h) rng) + k))
   \<and> (truthy (cacheGet (pluginCache c) n) \<longrightarrow>
      loadPlugins h c (replicate k n) sched = (Inr (replicate k (cacheGet (pluginCache c) n)), c))"
proof -
  have cnt: "count_list (replicate k x) y = (if x = y then k else 0)" for x y :: effect
    by (induction k) auto
  have miss1: "count_list (effects (snd (loadPlugins h c (replicate k n) sched))) (ResolveCall n (configPath c))
          = count_list (effects c) (ResolveCall n (configPath c)) + k"
    if m: "\<not> truthy (cacheGet (pluginCache c) n)"
    using loadPlugins_overlapping_count [OF m resumeOutcome_no_resolve, where k = k and sched = sched]
    by (simp add: cnt)
  have miss2: "count_list (effects (snd (loadPlugins h c (replicate k n) sched)))
                (SatisfiesCall (PARCEL_VERSION h) rng)
              = count_list (effects c) (SatisfiesCall (PARCEL_VERSION h) rng) + k"
    if m: "\<not> truthy (cacheGet (pluginCache c) n)"
      and r: "localRequire_resolve h n (configPath c) = Inr (f, pkg)
            \<and> engines pkg = Some e \<and> parcel e = Some rng \<and> rng \<noteq> []" for f pkg e rng
  proof -
    from r have "count_list (snd (resumeOutcome h (configPath c) n)) (SatisfiesCall (PARCEL_VERSION h) rng) = 1"
      using resumeOutcome_one_check by blast
    from loadPlugins_overlapping_count [OF m this, where k = k and sched = sched]
    show ?thesis by (simp add: cnt)
  qed
  have hit: "loadPlugins h c (replicate k n) sched = (Inr (replicate k (cacheGet (pluginCache c) n)), c)"
    if t: "truthy (cacheGet (pluginCache c) n)"
    by (simp add: loadPlugins_def beginAll_hit [OF t] fold_resumeAt_idle)
  from beginAll_miss [of c n k] miss1 miss2 hit show ?thesis by blast
qed

text \<open>
  C4 as stated fails: two calls for one uncached name in one pipeline resolve the module
  twice and check the version twice.
\<close>

theorem loadPlugins_not_coalesced_counterexample:
  "pluginCache demoConfig ''parcel-transformer-js'' = None
   \<and> effects (snd (loadPlugins (demoHost ''2.3.1'') demoConfig
        [''parcel-transformer-js'', ''parcel-transformer-js''] [])) =
      [ResolveCall ''parcel-transformer-js'' ''/app/.parcelrc'',
       ResolveCall ''parcel-transformer-js'' ''/app/.parcelrc'',
       SatisfiesCall ''2.3.1'' ''^2.0.0'',
       RequireCall ''/app/node_modules/parcel-transformer-js/index.js'',
       SatisfiesCall ''2.3.1'' ''^2.0.0'',
       RequireCall ''/app/node_modules/parcel-transformer-js/index.js'']"
proof -
  have b: "beginAll demoConfig [''parcel-transformer-js'', ''parcel-transformer-js''] =
     ([AwaitingResolve ''parcel-transformer-js'', AwaitingResolve ''parcel-transformer-js''],
      demoConfig\<lparr>effects := [ResolveCall ''parcel-transformer-js'' ''/app/.parcelrc'',
                              ResolveCall ''parcel-transformer-js'' ''/app/.parcelrc'']\<rparr>)"
    by (simp add: loadPlugin_begin_def cacheGet_def demo_cache_empty logEffect_def
        demo_configPath demo_effects)
  show ?thesis
    unfolding loadPlugins_def b
    by (simp add: resumeAt_def loadPlugin_resume_eq demo_outcome_js demo_cache_empty
        storeResult_def)
qed

theorem loadPlugins_not_coalesced_witness:
  "\<not> truthy (cacheGet (pluginCache demoConfig) ''parcel-transformer-js'')
   \<and> count_list (effects (snd (loadPlugins (demoHost ''2.3.1'') demoConfig
        (replicate 3 ''parcel-transformer-js'') [2, 0])))
        (ResolveCall ''parcel-transformer-js'' ''/app/.parcelrc'') = 3
   \<and> count_list (effects (snd (loadPlugins (demoHost ''2.3.1'') demoConfig
        (replicate 3 ''parcel-transformer-js'') [2, 0])))
        (SatisfiesCall ''2.3.1'' ''^2.0.0'') = 3"
proof -
  have m: "\<not> truthy (cacheGet (pluginCache demoConfig) ''parcel-transformer-js'')"
    by (simp add: cacheGet_None demo_cache_empty)
  note t = loadPlugins_not_coalesced [of demoConfig "''parcel-transformer-js''" 3
      "demoHost ''2.3.1''" "[2, 0]"]
  from t m have r: "count_list (effects (snd (loadPlugins (demoHost ''2.3.1'') demoConfig
        (replicate 3 ''parcel-transformer-js'') [2, 0])))
        (ResolveCall ''parcel-transformer-js'' (configPath demoConfig))
        = count_list (effects demoConfig) (ResolveCall ''parcel-transformer-js'' (configPath demoConfig)) + 3"
    by blast
  from t m demo_resolve_js [of "''2.3.1''"]
  have s: "count_list (effects (snd (loadPlugins (demoHost ''2.3.1'') demoConfig
        (replicate 3 ''parcel-transformer-js'') [2, 0])))
        (SatisfiesCall (PARCEL_VERSION (demoHost ''2.3.1'')) ''^2.0.0'')
        = count_list (effects demoConfig) (SatisfiesCall (PARCEL_VERSION (demoHost ''2.3.1'')) ''^2.0.0'') + 3"
    by (metis engines_field.select_convs(1) package_json.select_convs(1) list.distinct(1))
  from m r s show ?thesis by (simp add: demo_configPath demo_effects demo_version)
qed

end
